theory Spec2Isabelle
  imports Main "HOL-Library.Word"
begin

unbundle bit_operations_syntax

section \<open>The graphics unit of GameLad: \<^verbatim>\<open>gb-emu-lib/GPU.cpp\<close>\<close>

text \<open>
  A shallow embedding of \<^verbatim>\<open>GPU.cpp\<close>: the timing state machine \<^verbatim>\<open>GPU::Step\<close>, the memory
  arbiter \<^verbatim>\<open>GPU::ReadByte\<close> / \<^verbatim>\<open>GPU::WriteByte\<close>, the DMA copy and the two scanline renderers.
  Member variables become the fields of a record that is passed in and returned; calls to
  collaborators (the CPU's \<^verbatim>\<open>TriggerInterrupt\<close>, the VSync callback, the MMU's \<^verbatim>\<open>ReadByte\<close>)
  become entries of an event list returned next to the new state. A framebuffer access
  outside the array and a call through a null \<^verbatim>\<open>m_MMU\<close>, which are undefined behaviour in
  C++, are the result \<open>None\<close>.
\<close>

subsection \<open>Machine types and bit macros\<close>

type_synonym byte = "8 word"
type_synonym ushort = "16 word"

text \<open>
  Modelled from the spec: the bit macros \<^verbatim>\<open>ISBITSET\<close>, \<^verbatim>\<open>SETBIT\<close> and \<^verbatim>\<open>CLEARBIT\<close> come from
  the precompiled header, which is not among the sources. The spec speaks of a bit being
  set or clear and of setting and clearing the coincidence bit; they are the usual test,
  set and clear of bit \<open>n\<close>.
\<close>

definition ISBITSET :: "byte \<Rightarrow> nat \<Rightarrow> bool" where
  "ISBITSET val n = bit val n"

definition SETBIT :: "byte \<Rightarrow> nat \<Rightarrow> byte" where
  "SETBIT val n = val OR push_bit n 1"

definition CLEARBIT :: "byte \<Rightarrow> nat \<Rightarrow> byte" where
  "CLEARBIT val n = val AND NOT (push_bit n 1)"

subsection \<open>Declarations of the header\<close>

text \<open>
  \<^verbatim>\<open>GPU.hpp\<close> is not among the sources. The four cycle thresholds and the twelve register
  addresses it declares are taken as parameters, collected in one record whose fields
  carry the names used in \<^verbatim>\<open>GPU.cpp\<close>. The thresholds have the type of the mode clock.
\<close>

record 'c decls =
  ReadingOAMCycles :: 'c
  ReadingOAMVRAMCycles :: 'c
  HBlankCycles :: 'c
  VBlankCycles :: 'c
  LCDControl :: ushort
  LCDControllerStatus :: ushort
  ScrollY :: ushort
  ScrollX :: ushort
  LCDControllerYCoordinate :: ushort
  LYCompare :: ushort
  WindowYPosition :: ushort
  WindowXPositionMinus7 :: ushort
  BGPaletteData :: ushort
  ObjectPalette0Data :: ushort
  ObjectPalette1Data :: ushort
  DMATransferAndStartAddress :: ushort

text \<open>
  The mode numbers, as the comment on the status register in \<^verbatim>\<open>GPU.cpp\<close> lists them:
  0 during H-Blank, 1 during V-Blank, 2 while searching OAM, 3 while transferring data.
\<close>

definition ModeHBlank :: byte where "ModeHBlank = 0"
definition ModeVBlank :: byte where "ModeVBlank = 1"
definition ModeReadingOAM :: byte where "ModeReadingOAM = 2"
definition ModeReadingOAMVRAM :: byte where "ModeReadingOAMVRAM = 3"

text \<open>The two interrupts the unit requests: \<^verbatim>\<open>INT40\<close> (V-Blank) and \<^verbatim>\<open>INT48\<close> (LCD status).\<close>

datatype interrupt = INT40 | INT48

text \<open>
  What a call does to its collaborators, in the order it does it. \<open>ReadByteCall a v\<close> records
  that a renderer called the unit's own \<^verbatim>\<open>ReadByte\<close> at address \<open>a\<close> and got \<open>v\<close>;
  \<open>MMUReadByte a v\<close> records a call of \<^verbatim>\<open>m_MMU->ReadByte(a)\<close> that returned \<open>v\<close>.
\<close>

datatype event =
    TriggerInterrupt interrupt
  | VSyncCallback
  | ReadByteCall ushort byte
  | MMUReadByte ushort byte

subsection \<open>The state\<close>

text \<open>
  The member variables of \<^verbatim>\<open>GPU\<close>. The three pointers \<^verbatim>\<open>m_MMU\<close>, \<^verbatim>\<open>m_CPU\<close> and
  \<^verbatim>\<open>m_pVSyncCallback\<close> are booleans: \<open>True\<close> when the pointer is not null. The constructor
  stores whatever pointers it is given. The code tests \<^verbatim>\<open>m_CPU\<close> and \<^verbatim>\<open>m_pVSyncCallback\<close> against
  \<^verbatim>\<open>nullptr\<close> before every use; it calls through \<^verbatim>\<open>m_MMU\<close> without a test.
  The arrays are stores from index to byte; the code's own guards keep every index into
  \<^verbatim>\<open>m_VRAM\<close> and \<^verbatim>\<open>m_OAM\<close> inside the array, and the framebuffer is guarded by \<open>put_pixel\<close>
  below. The mode clock is an unsigned machine integer; its width is the type parameter.
\<close>

record 'c gpu =
  m_MMU :: bool
  m_CPU :: bool
  m_ModeClock :: 'c
  m_pVSyncCallback :: bool
  m_LCDControl :: byte
  m_LCDControllerStatus :: byte
  m_ScrollY :: byte
  m_ScrollX :: byte
  m_LCDControllerYCoordinate :: byte
  m_LYCompare :: byte
  m_WindowYPosition :: byte
  m_WindowXPositionMinus7 :: byte
  m_BGPaletteData :: byte
  m_ObjectPalette0Data :: byte
  m_ObjectPalette1Data :: byte
  m_VRAM :: "nat \<Rightarrow> byte"
  m_OAM :: "nat \<Rightarrow> byte"
  m_DisplayPixels :: "nat \<Rightarrow> byte"

definition IsLCDDisplayEnabled :: "'c gpu \<Rightarrow> bool" where
  "IsLCDDisplayEnabled s = ISBITSET (m_LCDControl s) 7"

definition WindowDisplayEnable :: "'c gpu \<Rightarrow> bool" where
  "WindowDisplayEnable s = ISBITSET (m_LCDControl s) 5"

definition BGWindowTileDataSelect :: "'c gpu \<Rightarrow> bool" where
  "BGWindowTileDataSelect s = ISBITSET (m_LCDControl s) 4"

definition BGWTileMapDisplaySelect :: "'c gpu \<Rightarrow> bool" where
  "BGWTileMapDisplaySelect s = ISBITSET (m_LCDControl s) 3"

definition OBJSize :: "'c gpu \<Rightarrow> bool" where
  "OBJSize s = ISBITSET (m_LCDControl s) 2"

definition OBJDisplayEnable :: "'c gpu \<Rightarrow> bool" where
  "OBJDisplayEnable s = ISBITSET (m_LCDControl s) 1"

definition BGDisplayEnable :: "'c gpu \<Rightarrow> bool" where
  "BGDisplayEnable s = ISBITSET (m_LCDControl s) 0"

definition LYCoincidenceInterrupt :: "'c gpu \<Rightarrow> bool" where
  "LYCoincidenceInterrupt s = ISBITSET (m_LCDControllerStatus s) 6"

definition OAMInterrupt :: "'c gpu \<Rightarrow> bool" where
  "OAMInterrupt s = ISBITSET (m_LCDControllerStatus s) 5"

definition VBlankInterrupt :: "'c gpu \<Rightarrow> bool" where
  "VBlankInterrupt s = ISBITSET (m_LCDControllerStatus s) 4"

definition HBlankInterrupt :: "'c gpu \<Rightarrow> bool" where
  "HBlankInterrupt s = ISBITSET (m_LCDControllerStatus s) 3"

definition SETMODE :: "byte \<Rightarrow> 'c gpu \<Rightarrow> 'c gpu" where
  "SETMODE mode s =
     s\<lparr>m_LCDControllerStatus := (m_LCDControllerStatus s AND NOT 0x03) OR mode\<rparr>"

definition GETMODE :: "'c gpu \<Rightarrow> byte" where
  "GETMODE s = m_LCDControllerStatus s AND 0x03"

definition GBColors :: "nat \<Rightarrow> byte" where
  "GBColors i = [0xEB, 0xC4, 0x60, 0x00] ! i"

subsection \<open>The memory arbiter: \<^verbatim>\<open>ReadByte\<close>\<close>

definition vram_address :: "ushort \<Rightarrow> bool" where
  "vram_address address \<longleftrightarrow> address \<ge> 0x8000 \<and> address \<le> 0x9FFF"

definition oam_address :: "ushort \<Rightarrow> bool" where
  "oam_address address \<longleftrightarrow> address \<ge> 0xFE00 \<and> address \<le> 0xFE9F"

text \<open>The two conditions under which \<^verbatim>\<open>ReadByte\<close> and \<^verbatim>\<open>WriteByte\<close> refuse an access.\<close>

definition vram_blocked :: "'c gpu \<Rightarrow> bool" where
  "vram_blocked s \<longleftrightarrow> IsLCDDisplayEnabled s \<and> GETMODE s = ModeReadingOAMVRAM"

definition oam_blocked :: "'c gpu \<Rightarrow> bool" where
  "oam_blocked s \<longleftrightarrow>
     IsLCDDisplayEnabled s \<and> (GETMODE s = ModeReadingOAM \<or> GETMODE s = ModeReadingOAMVRAM)"

text \<open>The calls of \<^verbatim>\<open>Logger::Log\<close> write a diagnostic and change nothing; they are left out.\<close>

definition ReadByte :: "'c decls \<Rightarrow> 'c gpu \<Rightarrow> ushort \<Rightarrow> byte" where
  "ReadByte k s address =
    (if vram_address address then
       (if vram_blocked s then 0x00 else m_VRAM s (unat address - 0x8000))
     else if oam_address address then
       (if oam_blocked s then 0x00 else m_OAM s (unat address - 0xFE00))
     else if address = LCDControl k then m_LCDControl s
     else if address = LCDControllerStatus k then m_LCDControllerStatus s
     else if address = ScrollY k then m_ScrollY s
     else if address = ScrollX k then m_ScrollX s
     else if address = LCDControllerYCoordinate k then m_LCDControllerYCoordinate s
     else if address = LYCompare k then m_LYCompare s
     else if address = WindowYPosition k then m_WindowYPosition s
     else if address = WindowXPositionMinus7 k then m_WindowXPositionMinus7 s
     else if address = BGPaletteData k then m_BGPaletteData s
     else if address = ObjectPalette0Data k then m_ObjectPalette0Data s
     else if address = ObjectPalette1Data k then m_ObjectPalette1Data s
     else if address = DMATransferAndStartAddress k then 0x00
     else 0x00)"

subsection \<open>The DMA copy and \<^verbatim>\<open>WriteByte\<close>\<close>

text \<open>
  A loop body run over a list of loop indices, stopping at the first fault.
\<close>

fun for_each :: "('a \<Rightarrow> 's \<Rightarrow> 's option) \<Rightarrow> 'a list \<Rightarrow> 's \<Rightarrow> 's option" where
  "for_each body [] s = Some s"
| "for_each body (x # xs) s =
     (case body x s of None \<Rightarrow> None | Some s' \<Rightarrow> for_each body xs s')"

text \<open>
  The MMU is a collaborator outside this file. What its \<^verbatim>\<open>ReadByte\<close> answers is the parameter
  \<open>mmu\<close>; the bus may route a read back to this unit, so the answer may depend on the
  unit's state at the moment of the call. The call goes through the pointer \<^verbatim>\<open>m_MMU\<close>, which
  the code does not test: with a null \<^verbatim>\<open>m_MMU\<close> the call is undefined behaviour, here the
  fault \<open>None\<close>.

  One round of the loop of \<^verbatim>\<open>LaunchDMATransfer\<close>:
  \<^verbatim>\<open>m_OAM[offset] = m_MMU->ReadByte(source | offset)\<close>.
\<close>

definition DMA_round ::
  "('c gpu \<Rightarrow> ushort \<Rightarrow> byte) \<Rightarrow> ushort \<Rightarrow> byte \<Rightarrow> 'c gpu \<times> event list
     \<Rightarrow> ('c gpu \<times> event list) option"
where
  "DMA_round mmu source offset = (\<lambda>(s, log).
     if m_MMU s then
       (let a = source OR ucast offset;
            v = mmu s a
        in Some (s\<lparr>m_OAM := (m_OAM s)(unat offset := v)\<rparr>, log @ [MMUReadByte a v]))
     else None)"

text \<open>The loop runs \<open>offset\<close> over \<open>0x00 .. 0x9F\<close>.\<close>

definition LaunchDMATransfer ::
  "('c gpu \<Rightarrow> ushort \<Rightarrow> byte) \<Rightarrow> byte \<Rightarrow> 'c gpu \<Rightarrow> ('c gpu \<times> event list) option"
where
  "LaunchDMATransfer mmu address s =
     (let source = (ucast address :: ushort) * 0x0100
      in for_each (\<lambda>offset. DMA_round mmu source (of_nat offset)) [0 ..< 160] (s, []))"

text \<open>
  \<^verbatim>\<open>WriteByte\<close> returns the new state, the boolean it returns in C++, and the events; or
  the fault of the DMA copy.
\<close>

definition WriteByte ::
  "'c decls \<Rightarrow> ('c gpu \<Rightarrow> ushort \<Rightarrow> byte) \<Rightarrow> ushort \<Rightarrow> byte \<Rightarrow> 'c gpu
     \<Rightarrow> ('c gpu \<times> bool \<times> event list) option"
where
  "WriteByte k mmu address val s =
    (if vram_address address then
       (if vram_blocked s then Some (s, False, [])
        else Some (s\<lparr>m_VRAM := (m_VRAM s)(unat address - 0x8000 := val)\<rparr>, True, []))
     else if oam_address address then
       (if oam_blocked s then Some (s, False, [])
        else Some (s\<lparr>m_OAM := (m_OAM s)(unat address - 0xFE00 := val)\<rparr>, True, []))
     else if address = LCDControl k then Some (s\<lparr>m_LCDControl := val\<rparr>, True, [])
     else if address = LCDControllerStatus k then
       Some (s\<lparr>m_LCDControllerStatus :=
                (val AND 0xF8) OR (m_LCDControllerStatus s AND 0x07)\<rparr>, True, [])
     else if address = ScrollY k then Some (s\<lparr>m_ScrollY := val\<rparr>, True, [])
     else if address = ScrollX k then Some (s\<lparr>m_ScrollX := val\<rparr>, True, [])
     else if address = LCDControllerYCoordinate k then
       Some (s\<lparr>m_LCDControllerYCoordinate := 0\<rparr>, True, [])
     else if address = LYCompare k then Some (s\<lparr>m_LYCompare := val\<rparr>, True, [])
     else if address = WindowYPosition k then Some (s\<lparr>m_WindowYPosition := val\<rparr>, True, [])
     else if address = WindowXPositionMinus7 k then
       Some (s\<lparr>m_WindowXPositionMinus7 := val\<rparr>, True, [])
     else if address = BGPaletteData k then Some (s\<lparr>m_BGPaletteData := val\<rparr>, True, [])
     else if address = ObjectPalette0Data k then
       Some (s\<lparr>m_ObjectPalette0Data := val\<rparr>, True, [])
     else if address = ObjectPalette1Data k then
       Some (s\<lparr>m_ObjectPalette1Data := val\<rparr>, True, [])
     else if address = DMATransferAndStartAddress k then
       (case LaunchDMATransfer mmu val s of
          None \<Rightarrow> None
        | Some (s', log) \<Rightarrow> Some (s', True, log))
     else Some (s, False, []))"

subsection \<open>The framebuffer\<close>

text \<open>
  Modelled from the spec: the size of \<^verbatim>\<open>m_DisplayPixels\<close> is declared in the header; the spec
  gives the framebuffer as a 160 by 144 grid, row-major.
\<close>

definition DisplayPixelsSize :: nat where
  "DisplayPixelsSize = 160 * 144"

text \<open>
  \<^verbatim>\<open>m_DisplayPixels[index] = color\<close>. An index outside the array is undefined behaviour in
  C++; here it is the fault \<open>None\<close>.
\<close>

definition put_pixel :: "nat \<Rightarrow> byte \<Rightarrow> 'c gpu \<Rightarrow> 'c gpu option" where
  "put_pixel index color s =
     (if index < DisplayPixelsSize
      then Some (s\<lparr>m_DisplayPixels := (m_DisplayPixels s)(index := color)\<rparr>)
      else None)"

subsection \<open>\<^verbatim>\<open>RenderBackgroundScanline\<close>\<close>

text \<open>The local array \<^verbatim>\<open>palette\<close>: the four two-bit slots of the background palette.\<close>

definition BG_palette :: "'c gpu \<Rightarrow> nat \<Rightarrow> byte" where
  "BG_palette s i =
     [GBColors (unat (m_BGPaletteData s AND 0x03)),
      GBColors (unat (drop_bit 2 (m_BGPaletteData s) AND 0x03)),
      GBColors (unat (drop_bit 4 (m_BGPaletteData s) AND 0x03)),
      GBColors (unat (drop_bit 6 (m_BGPaletteData s) AND 0x03))] ! i"

text \<open>One round of the loop taken when the background is switched off.\<close>

definition BG_blank_column :: "nat \<Rightarrow> 'c gpu \<times> event list \<Rightarrow> ('c gpu \<times> event list) option" where
  "BG_blank_column x = (\<lambda>(s, log).
     case put_pixel (unat (m_LCDControllerYCoordinate s) * 160 + x) (GBColors 0) s of
       None \<Rightarrow> None
     | Some s' \<Rightarrow> Some (s', log))"

text \<open>
  The main loop, for column \<open>x\<close>. C++ computes the sums, quotients and products in \<^verbatim>\<open>int\<close>
  and the casts \<^verbatim>\<open>(byte)\<close> and \<^verbatim>\<open>(ushort)\<close> truncate. \<open>tileY\<close> and \<open>tileYOffset\<close> do not
  depend on the column; they are computed where they are used.

  The address of the tile number in the tile map:
  \<^verbatim>\<open>(ushort)(tileNumberMap + (tileY * 32) + tileX)\<close>.
\<close>

definition BG_mapPtr :: "'c gpu \<Rightarrow> nat \<Rightarrow> ushort" where
  "BG_mapPtr s x =
     (let tileNumberMap = (if BGWTileMapDisplaySelect s then 0x9C00 else 0x9800 :: int);
          tileY = (word_of_int
            (((uint (m_LCDControllerYCoordinate s) + uint (m_ScrollY s)) div 8) mod 32) :: byte);
          tileX = (word_of_int (((uint (m_ScrollX s) + int x) div 8) mod 32) :: byte)
      in word_of_int (tileNumberMap + (uint tileY * 32) + uint tileX))"

text \<open>
  The address of the first of the two bytes of the tile's row: \<^verbatim>\<open>tileDataPtr\<close> after
  \<^verbatim>\<open>tileDataPtr += (ushort)(tileYOffset * 2)\<close>. The tile number is unsigned from \<open>8000\<close> or
  signed from \<open>9000\<close>.
\<close>

definition BG_tileDataPtr :: "'c gpu \<Rightarrow> byte \<Rightarrow> ushort" where
  "BG_tileDataPtr s tileNumber =
     (let tileData = (if BGWindowTileDataSelect s then 0x8000 else 0x9000 :: int);
          tileYOffset = (word_of_int
            ((uint (m_LCDControllerYCoordinate s) + uint (m_ScrollY s)) mod 8) :: byte);
          tileDataPtr =
            (if BGWindowTileDataSelect s
             then (word_of_int (tileData + uint tileNumber * 0x10) :: ushort)
             else (word_of_int (tileData + sint tileNumber * 0x10) :: ushort))
      in tileDataPtr + (word_of_int (uint tileYOffset * 2) :: ushort))"

text \<open>One round of the loop.\<close>

definition BG_column ::
  "'c decls \<Rightarrow> nat \<Rightarrow> 'c gpu \<times> event list \<Rightarrow> ('c gpu \<times> event list) option"
where
  "BG_column k x = (\<lambda>(s, log).
     let mapPtr = BG_mapPtr s x;
         tileNumber = ReadByte k s mapPtr;
         tileDataPtr = BG_tileDataPtr s tileNumber;
         b1 = ReadByte k s tileDataPtr;
         b2 = ReadByte k s (tileDataPtr + 1);
         bit = (word_of_int (7 - ((uint (m_ScrollX s) + int x) mod 8)) :: byte);
         pLo = (if ISBITSET b1 (unat bit) then 0x01 else 0x00 :: byte);
         pHi = (if ISBITSET b2 (unat bit) then 0x02 else 0x00 :: byte);
         color = BG_palette s (unat pLo + unat pHi)
     in case put_pixel (unat (m_LCDControllerYCoordinate s) * 160 + x) color s of
          None \<Rightarrow> None
        | Some s' \<Rightarrow>
            Some (s', log @ [ReadByteCall mapPtr tileNumber, ReadByteCall tileDataPtr b1,
                             ReadByteCall (tileDataPtr + 1) b2]))"

definition RenderBackgroundScanline ::
  "'c decls \<Rightarrow> 'c gpu \<times> event list \<Rightarrow> ('c gpu \<times> event list) option"
where
  "RenderBackgroundScanline k sl =
     (if \<not> BGDisplayEnable (fst sl) then for_each BG_blank_column [0 ..< 160] sl
      else for_each (BG_column k) [0 ..< 160] sl)"

subsection \<open>\<^verbatim>\<open>RenderOBJScanline\<close>\<close>

text \<open>The local array \<^verbatim>\<open>palette\<close> of a sprite; slot 0 is the unused, transparent one.\<close>

definition OBJ_palette :: "'c gpu \<Rightarrow> byte \<Rightarrow> nat \<Rightarrow> byte" where
  "OBJ_palette s paletteNumber i =
     [0x00,
      GBColors (if paletteNumber = 0x00
                then unat (drop_bit 2 (m_ObjectPalette0Data s) AND 0x03)
                else unat (drop_bit 2 (m_ObjectPalette1Data s) AND 0x03)),
      GBColors (if paletteNumber = 0x00
                then unat (drop_bit 4 (m_ObjectPalette0Data s) AND 0x03)
                else unat (drop_bit 4 (m_ObjectPalette1Data s) AND 0x03)),
      GBColors (if paletteNumber = 0x00
                then unat (drop_bit 6 (m_ObjectPalette0Data s) AND 0x03)
                else unat (drop_bit 6 (m_ObjectPalette1Data s) AND 0x03))] ! i"

text \<open>
  The body of the inner loop over the eight pixels of a sprite line. \<open>palette\<close> is the
  sprite's palette, \<open>x\<close> the left edge \<^verbatim>\<open>objX - 8\<close>, \<open>indexX\<close> the loop variable. The test
  \<^verbatim>\<open>m_DisplayPixels[index] == 0x00\<close> reads the framebuffer, so it faults outside the array
  like a write.
\<close>

definition OBJ_pixel ::
  "byte \<Rightarrow> byte \<Rightarrow> byte \<Rightarrow> (nat \<Rightarrow> byte) \<Rightarrow> int \<Rightarrow> nat \<Rightarrow> 'c gpu \<Rightarrow> 'c gpu option"
where
  "OBJ_pixel spriteFlags low high palette x indexX s =
     (let pixelX = x + int indexX in
      if pixelX \<ge> 0 \<and> pixelX < 160 then
        let bit = (if ISBITSET spriteFlags 5 then indexX else 7 - indexX);
            pixelVal = (if ISBITSET high bit then 0x02 else 0x00 :: byte)
                       OR (if ISBITSET low bit then 0x01 else 0x00);
            color = palette (unat pixelVal)
        in if pixelVal \<noteq> 0x00 then
             let index = unat (m_LCDControllerYCoordinate s) * 160 + nat pixelX in
             if \<not> ISBITSET spriteFlags 7 then put_pixel index color s
             else if index < DisplayPixelsSize then
               (if m_DisplayPixels s index = 0x00 then put_pixel index color s else Some s)
             else None
           else Some s
      else Some s)"

text \<open>
  The outer loop, for the sprite whose entry starts at byte \<open>i\<close> of \<^verbatim>\<open>m_OAM\<close>. The sprite is
  on the current scanline when \<^verbatim>\<open>(y <= LY) && ((y + height) > LY)\<close>.
\<close>

definition OBJ_height :: "'c gpu \<Rightarrow> int" where
  "OBJ_height s = uint (if OBJSize s then 0x10 else 0x08 :: byte)"

definition OBJ_on_scanline :: "'c gpu \<Rightarrow> nat \<Rightarrow> bool" where
  "OBJ_on_scanline s i =
     (let y = uint (m_OAM s i) - 16;
          ly = uint (m_LCDControllerYCoordinate s)
      in y \<le> ly \<and> y + OBJ_height s > ly)"

text \<open>
  The address of the first of the two bytes of the sprite's line: \<^verbatim>\<open>tilePointer\<close> after
  \<^verbatim>\<open>tilePointer += (tileYOffset * 2)\<close>.
\<close>

definition OBJ_tilePointer :: "'c gpu \<Rightarrow> nat \<Rightarrow> ushort" where
  "OBJ_tilePointer s i =
     (let spriteSize = (if OBJSize s then 0x10 else 0x08 :: byte);
          height = OBJ_height s;
          y = uint (m_OAM s i) - 16;
          ly = uint (m_LCDControllerYCoordinate s);
          spriteTileNumber0 = m_OAM s (i + 2);
          spriteFlags = m_OAM s (i + 3);
          spriteTileNumber =
            (if spriteSize = 0x10 then spriteTileNumber0 AND 0xFE else spriteTileNumber0);
          tileData = (0x8000 :: int);
          tilePointer = (word_of_int (tileData + uint spriteTileNumber * 16) :: ushort);
          tileYOffset = (word_of_int
            (if ISBITSET spriteFlags 6 then (height - 1) - (ly - y) else ly - y) :: byte)
      in tilePointer + (word_of_int (uint tileYOffset * 2) :: ushort))"

text \<open>One round of the outer loop.\<close>

definition OBJ_sprite ::
  "'c decls \<Rightarrow> nat \<Rightarrow> 'c gpu \<times> event list \<Rightarrow> ('c gpu \<times> event list) option"
where
  "OBJ_sprite k i = (\<lambda>(s, log).
     if OBJ_on_scanline s i then
       let objX = m_OAM s (i + 1);
           spriteFlags = m_OAM s (i + 3);
           paletteNumber = (if ISBITSET spriteFlags 4 then 0x01 else 0x00 :: byte);
           x = uint objX - 8;
           tilePointer = OBJ_tilePointer s i;
           low = ReadByte k s tilePointer;
           high = ReadByte k s (tilePointer + 1)
       in case for_each (OBJ_pixel spriteFlags low high (OBJ_palette s paletteNumber) x)
                 [0 ..< 8] s of
            None \<Rightarrow> None
          | Some s' \<Rightarrow>
              Some (s', log @ [ReadByteCall tilePointer low, ReadByteCall (tilePointer + 1) high])
     else Some (s, log))"

text \<open>The outer loop runs \<open>i\<close> over \<open>0, 4, .., 156\<close>.\<close>

definition RenderOBJScanline ::
  "'c decls \<Rightarrow> 'c gpu \<times> event list \<Rightarrow> ('c gpu \<times> event list) option"
where
  "RenderOBJScanline k sl = for_each (OBJ_sprite k) (map (\<lambda>n. 4 * n) [0 ..< 40]) sl"

text \<open>\<^verbatim>\<open>RenderScanline\<close>: the window layer is commented out in the source.\<close>

definition RenderScanline :: "'c decls \<Rightarrow> 'c gpu \<Rightarrow> ('c gpu \<times> event list) option" where
  "RenderScanline k s =
     (case RenderBackgroundScanline k (s, []) of
        None \<Rightarrow> None
      | Some sl \<Rightarrow> if OBJDisplayEnable (fst sl) then RenderOBJScanline k sl else Some sl)"

definition RenderImage :: "'c gpu \<Rightarrow> event list" where
  "RenderImage s = (if m_pVSyncCallback s then [VSyncCallback] else [])"

subsection \<open>\<^verbatim>\<open>Step\<close>\<close>

text \<open>The \<^verbatim>\<open>switch (GETMODE)\<close> of \<^verbatim>\<open>Step\<close>, entered after the cycles have been added.\<close>

definition Step_switch ::
  "('w::len) word decls \<Rightarrow> 'w word gpu \<Rightarrow> ('w word gpu \<times> event list) option"
where
  "Step_switch k s =
    (if GETMODE s = ModeReadingOAM then
       (if m_ModeClock s \<ge> ReadingOAMCycles k then
          Some (SETMODE ModeReadingOAMVRAM
                  (s\<lparr>m_ModeClock := m_ModeClock s - ReadingOAMCycles k\<rparr>), [])
        else Some (s, []))
     else if GETMODE s = ModeReadingOAMVRAM then
       (if m_ModeClock s \<ge> ReadingOAMVRAMCycles k then
          (case RenderScanline k
                  (SETMODE ModeHBlank
                     (s\<lparr>m_ModeClock := m_ModeClock s - ReadingOAMVRAMCycles k\<rparr>)) of
             None \<Rightarrow> None
           | Some (s1, log) \<Rightarrow>
               Some (s1, log @ (if HBlankInterrupt s1 \<and> m_CPU s1
                                then [TriggerInterrupt INT48] else [])))
        else Some (s, []))
     else if GETMODE s = ModeHBlank then
       (if m_ModeClock s \<ge> HBlankCycles k then
          (let s1 = s\<lparr>m_ModeClock := m_ModeClock s - HBlankCycles k\<rparr>;
               s2 = s1\<lparr>m_LCDControllerYCoordinate := m_LCDControllerYCoordinate s1 + 1\<rparr>
           in if m_LCDControllerYCoordinate s2 = 144 then
                (let s3 = SETMODE ModeVBlank s2
                 in Some (s3, RenderImage s3 @
                      (if m_CPU s3
                       then TriggerInterrupt INT40 #
                            (if VBlankInterrupt s3 then [TriggerInterrupt INT48] else [])
                       else [])))
              else Some (SETMODE ModeReadingOAM s2, []))
        else Some (s, []))
     else if GETMODE s = ModeVBlank then
       (if m_ModeClock s \<ge> VBlankCycles k then
          (let s1 = s\<lparr>m_ModeClock := m_ModeClock s - VBlankCycles k\<rparr>;
               s2 = s1\<lparr>m_LCDControllerYCoordinate := m_LCDControllerYCoordinate s1 + 1\<rparr>
           in if m_LCDControllerYCoordinate s2 = 154 then
                Some ((SETMODE ModeReadingOAM s2)\<lparr>m_LCDControllerYCoordinate := 0x00\<rparr>, [])
              else Some (s2, []))
        else Some (s, []))
     else Some (s, []))"

text \<open>The coincidence comparison that ends \<^verbatim>\<open>Step\<close>.\<close>

definition Step_coincidence :: "'c gpu \<Rightarrow> 'c gpu \<times> event list" where
  "Step_coincidence s =
    (if m_LYCompare s = m_LCDControllerYCoordinate s then
       (let s1 = s\<lparr>m_LCDControllerStatus := SETBIT (m_LCDControllerStatus s) 2\<rparr>
        in (s1, if LYCoincidenceInterrupt s1 \<and> m_CPU s1 then [TriggerInterrupt INT48] else []))
     else (s\<lparr>m_LCDControllerStatus := CLEARBIT (m_LCDControllerStatus s) 2\<rparr>, []))"

definition Step ::
  "('w::len) word decls \<Rightarrow> 'w word \<Rightarrow> 'w word gpu \<Rightarrow> ('w word gpu \<times> event list) option"
where
  "Step k cycles s =
    (if \<not> IsLCDDisplayEnabled s then
       Some (SETMODE ModeVBlank
               (s\<lparr>m_LCDControllerYCoordinate := 153, m_ModeClock := VBlankCycles k\<rparr>), [])
     else
       (case Step_switch k (s\<lparr>m_ModeClock := m_ModeClock s + cycles\<rparr>) of
          None \<Rightarrow> None
        | Some (s1, log1) \<Rightarrow>
            (let (s2, log2) = Step_coincidence s1 in Some (s2, log1 @ log2))))"

section \<open>Notions used to state the properties\<close>

text \<open>
  The threshold that \<^verbatim>\<open>Step\<close> compares the mode clock with while the unit is in a given
  mode: the constant named in the matching \<^verbatim>\<open>case\<close> of the switch.
\<close>

definition ModeCycles :: "'c decls \<Rightarrow> byte \<Rightarrow> 'c" where
  "ModeCycles k mode =
     (if mode = ModeReadingOAM then ReadingOAMCycles k
      else if mode = ModeReadingOAMVRAM then ReadingOAMVRAMCycles k
      else if mode = ModeHBlank then HBlankCycles k
      else VBlankCycles k)"

text \<open>
  The situation in which \<^verbatim>\<open>Step\<close> enters V-Blank: the display is on, the mode is H-Blank,
  the clock with the new cycles added reaches the H-Blank threshold, and the incremented
  scanline is 144.
\<close>

definition VBlank_entry :: "('w::len) word decls \<Rightarrow> 'w word \<Rightarrow> 'w word gpu \<Rightarrow> bool" where
  "VBlank_entry k cycles s \<longleftrightarrow>
     IsLCDDisplayEnabled s \<and> GETMODE s = ModeHBlank
     \<and> HBlankCycles k \<le> m_ModeClock s + cycles
     \<and> m_LCDControllerYCoordinate s + 1 = 144"

text \<open>Two states that agree on everything but the framebuffer.\<close>

definition only_pixels_differ :: "'c gpu \<Rightarrow> 'c gpu \<Rightarrow> bool" where
  "only_pixels_differ s t \<longleftrightarrow> t = s\<lparr>m_DisplayPixels := m_DisplayPixels t\<rparr>"

fun is_read :: "event \<Rightarrow> bool" where
  "is_read (ReadByteCall a v) = True"
| "is_read e = False"

text \<open>What every round of a render loop keeps: only pixels change, only reads are logged.\<close>

definition render_inv :: "'c gpu \<Rightarrow> 'c gpu \<times> event list \<Rightarrow> bool" where
  "render_inv s0 sl \<longleftrightarrow> only_pixels_differ s0 (fst sl) \<and> (\<forall>e \<in> set (snd sl). is_read e)"

subsection \<open>The register map\<close>

text \<open>The twelve register addresses, in the order of the \<^verbatim>\<open>case\<close> labels.\<close>

definition registers :: "'c decls \<Rightarrow> ushort list" where
  "registers k =
     [LCDControl k, LCDControllerStatus k, ScrollY k, ScrollX k, LCDControllerYCoordinate k,
      LYCompare k, WindowYPosition k, WindowXPositionMinus7 k, BGPaletteData k,
      ObjectPalette0Data k, ObjectPalette1Data k, DMATransferAndStartAddress k]"

text \<open>
  What is assumed of the header where a claim speaks of a register: the twelve addresses
  are pairwise different, as the labels of one C++ \<^verbatim>\<open>switch\<close> must be, and none of them lies
  in the video-memory or object-memory range, which \<^verbatim>\<open>ReadByte\<close> and \<^verbatim>\<open>WriteByte\<close> test first.
\<close>

definition decls_ok :: "'c decls \<Rightarrow> bool" where
  "decls_ok k \<longleftrightarrow>
     distinct (registers k) \<and> (\<forall>a \<in> set (registers k). \<not> vram_address a \<and> \<not> oam_address a)"

text \<open>
  A write is dropped when it is a gated access to video or object memory or goes to an
  address that is neither memory nor a register.
\<close>

definition write_dropped :: "'c decls \<Rightarrow> 'c gpu \<Rightarrow> ushort \<Rightarrow> bool" where
  "write_dropped k s a \<longleftrightarrow>
     (vram_address a \<and> IsLCDDisplayEnabled s \<and> GETMODE s = ModeReadingOAMVRAM)
     \<or> (oam_address a \<and> IsLCDDisplayEnabled s
          \<and> (GETMODE s = ModeReadingOAM \<or> GETMODE s = ModeReadingOAMVRAM))
     \<or> (\<not> vram_address a \<and> \<not> oam_address a \<and> a \<notin> set (registers k))"

subsection \<open>The DMA copy, round by round\<close>

text \<open>The address of round \<open>i\<close>: the written value times 256, plus \<open>i\<close>.\<close>

definition DMA_addr :: "byte \<Rightarrow> nat \<Rightarrow> ushort" where
  "DMA_addr v i = of_nat (unat v * 256 + i)"

text \<open>The first \<open>n\<close> rounds of the loop of \<^verbatim>\<open>LaunchDMATransfer\<close>.\<close>

definition DMA_loop ::
  "('c gpu \<Rightarrow> ushort \<Rightarrow> byte) \<Rightarrow> byte \<Rightarrow> 'c gpu \<Rightarrow> nat \<Rightarrow> ('c gpu \<times> event list) option"
where
  "DMA_loop mmu v s n =
     for_each (\<lambda>offset. DMA_round mmu ((ucast v :: ushort) * 0x0100) (of_nat offset))
       [0 ..< n] (s, [])"

text \<open>
  What \<open>n\<close> rounds leave in object memory: byte \<open>i\<close> is what the MMU answered in round
  \<open>i\<close>, when bytes below \<open>i\<close> had been copied already; bytes from \<open>n\<close> on are untouched.
\<close>

definition DMA_done ::
  "('c gpu \<Rightarrow> ushort \<Rightarrow> byte) \<Rightarrow> byte \<Rightarrow> 'c gpu \<Rightarrow> nat \<Rightarrow> (nat \<Rightarrow> byte) \<Rightarrow> bool" where
  "DMA_done mmu v s n oam' \<longleftrightarrow>
     (\<forall>i<n. oam' i = mmu (s\<lparr>m_OAM := (\<lambda>j. if j < i then oam' j else m_OAM s j)\<rparr>)
                          (DMA_addr v i))
     \<and> (\<forall>j\<ge>n. oam' j = m_OAM s j)"

subsection \<open>Concrete inputs\<close>

text \<open>
  An instance of the header's declarations, for evaluating the model: a 32-bit mode clock
  (\<^verbatim>\<open>unsigned long\<close> of the Windows build), thresholds 80, 172, 204 and 456 (they lie in
  the ranges that the comment above \<^verbatim>\<open>Step\<close> gives and add up to its 456 clocks per line),
  and the register addresses \<open>FF40\<close> to \<open>FF4B\<close> of the hardware, of which the comments in
  \<^verbatim>\<open>GPU.cpp\<close> name \<open>FF40\<close> and \<open>FF41\<close>.
\<close>

definition dmg :: "32 word decls" where
  "dmg = \<lparr>ReadingOAMCycles = 80, ReadingOAMVRAMCycles = 172, HBlankCycles = 204,
     VBlankCycles = 456, LCDControl = 0xFF40, LCDControllerStatus = 0xFF41, ScrollY = 0xFF42,
     ScrollX = 0xFF43, LCDControllerYCoordinate = 0xFF44, LYCompare = 0xFF45,
     WindowYPosition = 0xFF4A, WindowXPositionMinus7 = 0xFF4B, BGPaletteData = 0xFF47,
     ObjectPalette0Data = 0xFF48, ObjectPalette1Data = 0xFF49,
     DMATransferAndStartAddress = 0xFF46\<rparr>"

text \<open>A state with an MMU, a CPU and a VSync callback attached and every byte zero.\<close>

definition zeroed :: "32 word gpu" where
  "zeroed = \<lparr>m_MMU = True, m_CPU = True, m_ModeClock = 0, m_pVSyncCallback = True, m_LCDControl = 0,
     m_LCDControllerStatus = 0, m_ScrollY = 0, m_ScrollX = 0, m_LCDControllerYCoordinate = 0,
     m_LYCompare = 0, m_WindowYPosition = 0, m_WindowXPositionMinus7 = 0, m_BGPaletteData = 0,
     m_ObjectPalette0Data = 0, m_ObjectPalette1Data = 0, m_VRAM = (\<lambda>_. 0), m_OAM = (\<lambda>_. 0),
     m_DisplayPixels = (\<lambda>_. 0)\<rparr>"

text \<open>Display on, mode 2 (searching OAM), clock 0, scanline 0.\<close>

definition c2_state :: "32 word gpu" where
  "c2_state = zeroed\<lparr>m_LCDControl := 0x80, m_LCDControllerStatus := 0x02\<rparr>"

text \<open>Display on, mode 0 (H-Blank) with the V-Blank status interrupt enabled, scanline 143.\<close>

definition c3_state :: "32 word gpu" where
  "c3_state = zeroed\<lparr>m_LCDControl := 0x80, m_LCDControllerStatus := 0x10,
     m_LCDControllerYCoordinate := 143\<rparr>"

text \<open>
  The same with the V-Blank status interrupt disabled, the coincidence interrupt enabled
  and the compare register at 144.
\<close>

definition c3_lyc_state :: "32 word gpu" where
  "c3_lyc_state = zeroed\<lparr>m_LCDControl := 0x80, m_LCDControllerStatus := 0x40,
     m_LCDControllerYCoordinate := 143, m_LYCompare := 144\<rparr>"

text \<open>Display off, in the middle of a frame.\<close>

definition c4_state :: "32 word gpu" where
  "c4_state = zeroed\<lparr>m_LCDControl := 0x03, m_LCDControllerStatus := 0x4B,
     m_LCDControllerYCoordinate := 0x20, m_LYCompare := 0x20, m_ModeClock := 171\<rparr>"

text \<open>Display on, mode 2, coincidence interrupt enabled, scanline and compare register 5.\<close>

definition c5_state :: "32 word gpu" where
  "c5_state = zeroed\<lparr>m_LCDControl := 0x80, m_LCDControllerStatus := 0x42,
     m_LCDControllerYCoordinate := 5, m_LYCompare := 5\<rparr>"

text \<open>Display on, mode 3 (transferring), video memory filled with \<open>5A\<close>, object memory with \<open>77\<close>.\<close>

definition c6_state :: "32 word gpu" where
  "c6_state = zeroed\<lparr>m_LCDControl := 0x80, m_LCDControllerStatus := 0x03,
      m_VRAM := (\<lambda>_. 0x5A), m_OAM := (\<lambda>_. 0x77)\<rparr>"

text \<open>An MMU that answers every read with the low byte of the address.\<close>

definition echo_mmu :: "32 word gpu \<Rightarrow> ushort \<Rightarrow> byte" where
  "echo_mmu s a = ucast a"

text \<open>The zeroed state built with a null MMU pointer.\<close>

definition no_mmu_state :: "32 word gpu" where
  "no_mmu_state = zeroed\<lparr>m_MMU := False\<rparr>"

subsection \<open>Predicates and inputs for the renderers\<close>

text \<open>The framebuffer after the first \<open>n\<close> columns of the current scanline have been blanked.\<close>

definition blank_line :: "'c gpu \<Rightarrow> nat \<Rightarrow> nat \<Rightarrow> byte" where
  "blank_line s n i =
     (if unat (m_LCDControllerYCoordinate s) * 160 \<le> i
         \<and> i < unat (m_LCDControllerYCoordinate s) * 160 + n
      then GBColors 0 else m_DisplayPixels s i)"

text \<open>
  What holds of the state and of the log while the renderers run from state \<open>t\<close>: only the
  framebuffer has changed, and every event logged is a read of video memory that returned the
  byte stored in \<open>t\<close>.
\<close>

definition reads_inv :: "'c gpu \<Rightarrow> 'c gpu \<times> event list \<Rightarrow> bool" where
  "reads_inv t sl \<longleftrightarrow>
     only_pixels_differ t (fst sl)
     \<and> (\<forall>e \<in> set (snd sl).
           \<exists>a. vram_address a \<and> e = ReadByteCall a (m_VRAM t (unat a - 0x8000)))"

text \<open>The current scanline is a row of the framebuffer.\<close>

definition visible :: "'c gpu \<Rightarrow> bool" where
  "visible s \<longleftrightarrow> m_LCDControllerYCoordinate s < 144"

text \<open>Display on, background off, scanline 2.\<close>

definition c8_state :: "32 word gpu" where
  "c8_state = zeroed\<lparr>m_LCDControl := 0x80, m_LCDControllerYCoordinate := 2\<rparr>"

text \<open>
  Display on, background off, sprites on, mode 3, scanline 0. Sprite 0 is at the top left
  corner of the screen, behind the background (attribute bit 7), and the first line of its tile
  has colour 1 in its leftmost pixel; object palette 0 maps colour 1 to shade 1. No other
  sprite is on the screen.
\<close>

definition sprite_state :: "32 word gpu" where
  "sprite_state = zeroed\<lparr>m_LCDControl := 0x82, m_LCDControllerStatus := 0x03,
     m_ObjectPalette0Data := 0xE4, m_VRAM := (\<lambda>_. 0)(0 := 0x80),
     m_OAM := (\<lambda>_. 0)(0 := 16, Suc 0 := 8, 3 := 0x80)\<rparr>"

text \<open>
  Outside VBlank the current scanline is a row of the framebuffer: what holds of every state
  the unit reaches.
\<close>

definition scanline_inv :: "'c gpu \<Rightarrow> bool" where
  "scanline_inv s \<longleftrightarrow> (GETMODE s \<noteq> ModeVBlank \<longrightarrow> m_LCDControllerYCoordinate s < 144)"


section \<open>Auxiliary facts\<close>

subsection \<open>Modes and status bits\<close>

lemmas mode_defs = ModeHBlank_def ModeVBlank_def ModeReadingOAM_def ModeReadingOAMVRAM_def

lemma bit_int_3: "bit (3::int) n \<longleftrightarrow> n < 2"
  using bit_mask_iff[of 2 n, where ?'a = int] by (simp add: mask_eq_exp_minus_1)

lemma bit_int_2: "bit (2::int) n \<longleftrightarrow> n = 1"
  using bit_push_bit_iff[of 1 "1::int" n] by (auto simp: bit_1_iff)

lemma bit_int_4: "bit (4::int) n \<longleftrightarrow> n = 2"
  using bit_push_bit_iff[of 2 "1::int" n] by (auto simp: bit_1_iff)

lemma and3_take_bit: "(x::byte) AND 3 = take_bit 2 x"
  by (simp add: take_bit_eq_mask mask_eq_exp_minus_1)

lemma GETMODE_cases:
  "GETMODE s = ModeHBlank \<or> GETMODE s = ModeVBlank \<or> GETMODE s = ModeReadingOAM
     \<or> GETMODE s = ModeReadingOAMVRAM"
proof -
  have "unat (GETMODE s) < 4"
    unfolding GETMODE_def and3_take_bit
    by (simp add: unsigned_take_bit_eq take_bit_nat_less_exp[of 2, simplified])
  then have "unat (GETMODE s) = 0 \<or> unat (GETMODE s) = 1 \<or> unat (GETMODE s) = 2
      \<or> unat (GETMODE s) = 3" by arith
  then show ?thesis unfolding mode_defs word_unat_eq_iff by simp
qed

lemma GETMODE_SETMODE_HBlank: "GETMODE (SETMODE ModeHBlank s) = ModeHBlank"
  unfolding GETMODE_def SETMODE_def mode_defs
  by (rule bit_eqI) (auto simp: bit_simps bit_int_3)

lemma GETMODE_SETMODE_VBlank: "GETMODE (SETMODE ModeVBlank s) = ModeVBlank"
  unfolding GETMODE_def SETMODE_def mode_defs
  by (rule bit_eqI) (auto simp: bit_simps bit_int_3)

lemma GETMODE_SETMODE_ReadingOAM: "GETMODE (SETMODE ModeReadingOAM s) = ModeReadingOAM"
  unfolding GETMODE_def SETMODE_def mode_defs
  by (rule bit_eqI) (auto simp: bit_simps bit_int_3 bit_int_2)

lemma GETMODE_SETMODE_ReadingOAMVRAM:
  "GETMODE (SETMODE ModeReadingOAMVRAM s) = ModeReadingOAMVRAM"
  unfolding GETMODE_def SETMODE_def mode_defs
  by (rule bit_eqI) (auto simp: bit_simps bit_int_3)

lemmas GETMODE_SETMODE = GETMODE_SETMODE_HBlank GETMODE_SETMODE_VBlank
  GETMODE_SETMODE_ReadingOAM GETMODE_SETMODE_ReadingOAMVRAM

lemma SETMODE_high_bits:
  assumes "mode = ModeHBlank \<or> mode = ModeVBlank \<or> mode = ModeReadingOAM
           \<or> mode = ModeReadingOAMVRAM" and "2 \<le> n"
  shows "ISBITSET (m_LCDControllerStatus (SETMODE mode s)) n
         = ISBITSET (m_LCDControllerStatus s) n"
  using assms unfolding SETMODE_def mode_defs ISBITSET_def
  by (elim disjE; simp add: bit_simps bit_int_3 bit_int_2; auto dest: bit_imp_le_length)

lemma SETMODE_fields [simp]:
  "m_CPU (SETMODE mode s) = m_CPU s"
  "m_ModeClock (SETMODE mode s) = m_ModeClock s"
  "m_pVSyncCallback (SETMODE mode s) = m_pVSyncCallback s"
  "m_LCDControl (SETMODE mode s) = m_LCDControl s"
  "m_LCDControllerYCoordinate (SETMODE mode s) = m_LCDControllerYCoordinate s"
  "m_LYCompare (SETMODE mode s) = m_LYCompare s"
  "m_VRAM (SETMODE mode s) = m_VRAM s"
  "m_OAM (SETMODE mode s) = m_OAM s"
  "m_DisplayPixels (SETMODE mode s) = m_DisplayPixels s"
  by (simp_all add: SETMODE_def)

lemma GETMODE_coincidence_bit:
  "GETMODE (s\<lparr>m_LCDControllerStatus := SETBIT (m_LCDControllerStatus s) 2\<rparr>) = GETMODE s"
  "GETMODE (s\<lparr>m_LCDControllerStatus := CLEARBIT (m_LCDControllerStatus s) 2\<rparr>) = GETMODE s"
  unfolding GETMODE_def SETBIT_def CLEARBIT_def
  by (rule bit_eqI; auto simp: bit_simps bit_int_3 bit_int_4)+

lemma Step_coincidence_mode: "GETMODE (fst (Step_coincidence s)) = GETMODE s"
  by (simp add: Step_coincidence_def Let_def GETMODE_coincidence_bit)

lemma Step_coincidence_clock: "m_ModeClock (fst (Step_coincidence s)) = m_ModeClock s"
  by (simp add: Step_coincidence_def Let_def)

subsection \<open>Loops and what the renderers leave alone\<close>

lemma for_each_invariant:
  assumes "for_each body xs s = Some s'" and "P s"
    and "\<And>x s t. x \<in> set xs \<Longrightarrow> P s \<Longrightarrow> body x s = Some t \<Longrightarrow> P t"
  shows "P s'"
  using assms
proof (induction xs arbitrary: s)
  case Nil
  then show ?case by simp
next
  case (Cons x xs)
  from Cons.prems(1) obtain t where t: "body x s = Some t" "for_each body xs t = Some s'"
    by (auto split: option.splits)
  have "P t" by (rule Cons.prems(3)[OF _ Cons.prems(2) t(1)]) simp
  then show ?case
  proof (rule Cons.IH[OF t(2)])
    fix y u v
    assume "y \<in> set xs" and "P u" and "body y u = Some v"
    then show "P v" using Cons.prems(3)[of y u v] by simp
  qed
qed

lemma for_each_append:
  "for_each body (xs @ ys) s =
     (case for_each body xs s of None \<Rightarrow> None | Some t \<Rightarrow> for_each body ys t)"
  by (induction xs arbitrary: s) (auto split: option.splits)

lemma only_pixels_differ_refl: "only_pixels_differ s s"
  by (simp add: only_pixels_differ_def)

lemma put_pixel_only_pixels:
  "only_pixels_differ s0 s \<Longrightarrow> put_pixel i c s = Some t \<Longrightarrow> only_pixels_differ s0 t"
  unfolding only_pixels_differ_def put_pixel_def
  by (cases s0; cases s; cases t) (auto split: if_splits)

lemma BG_blank_column_inv:
  "render_inv s0 sl \<Longrightarrow> BG_blank_column x sl = Some sl2 \<Longrightarrow> render_inv s0 sl2"
  unfolding render_inv_def BG_blank_column_def
  by (cases sl) (auto split: option.splits dest: put_pixel_only_pixels)

lemma BG_column_inv:
  "render_inv s0 sl \<Longrightarrow> BG_column k x sl = Some sl2 \<Longrightarrow> render_inv s0 sl2"
  unfolding render_inv_def BG_column_def Let_def
  by (cases sl) (auto split: option.splits dest: put_pixel_only_pixels)

lemma OBJ_pixel_only_pixels:
  "only_pixels_differ s0 s \<Longrightarrow> OBJ_pixel fl lo hi pal x ix s = Some t \<Longrightarrow> only_pixels_differ s0 t"
  unfolding OBJ_pixel_def Let_def
  by (auto split: if_splits dest: put_pixel_only_pixels)

lemma OBJ_pixel_loop_only_pixels:
  "for_each (OBJ_pixel fl lo hi pal x) xs s = Some t \<Longrightarrow> only_pixels_differ s0 s
   \<Longrightarrow> only_pixels_differ s0 t"
  by (erule for_each_invariant) (auto dest: OBJ_pixel_only_pixels)

lemma OBJ_sprite_inv:
  "render_inv s0 sl \<Longrightarrow> OBJ_sprite k i sl = Some sl2 \<Longrightarrow> render_inv s0 sl2"
  unfolding OBJ_sprite_def Let_def render_inv_def
  by (cases sl) (auto split: if_splits option.splits dest: OBJ_pixel_loop_only_pixels)

lemma RenderScanline_inv:
  assumes "RenderScanline k s = Some (s', log)"
  shows "only_pixels_differ s s' \<and> (\<forall>e \<in> set log. is_read e)"
proof -
  from assms obtain sl where bg: "RenderBackgroundScanline k (s, []) = Some sl"
    and obj: "(if OBJDisplayEnable (fst sl) then RenderOBJScanline k sl else Some sl) = Some (s', log)"
    unfolding RenderScanline_def by (auto split: option.splits)
  have init: "render_inv s (s, [])" by (simp add: render_inv_def only_pixels_differ_refl)
  have "render_inv s sl"
  proof (cases "BGDisplayEnable s")
    case True
    with bg have "for_each (BG_column k) [0 ..< 160] (s, []) = Some sl"
      by (simp add: RenderBackgroundScanline_def)
    then show ?thesis using init by (rule for_each_invariant) (rule BG_column_inv)
  next
    case False
    with bg have "for_each BG_blank_column [0 ..< 160] (s, []) = Some sl"
      by (simp add: RenderBackgroundScanline_def)
    then show ?thesis using init by (rule for_each_invariant) (rule BG_blank_column_inv)
  qed
  moreover have "render_inv s sl \<Longrightarrow> RenderOBJScanline k sl = Some sl2 \<Longrightarrow> render_inv s sl2" for sl2
    unfolding RenderOBJScanline_def
    by (erule for_each_invariant[rotated]) (auto dest: OBJ_sprite_inv)
  ultimately have "render_inv s (s', log)" using obj by (auto split: if_splits)
  then show ?thesis by (simp add: render_inv_def)
qed

lemma only_pixels_differ_fields:
  assumes "only_pixels_differ s t"
  shows "m_ModeClock t = m_ModeClock s" "m_LCDControllerStatus t = m_LCDControllerStatus s"
    "m_LCDControl t = m_LCDControl s" "m_CPU t = m_CPU s"
    "m_LCDControllerYCoordinate t = m_LCDControllerYCoordinate s"
    "m_LYCompare t = m_LYCompare s" "m_VRAM t = m_VRAM s" "m_OAM t = m_OAM s"
    "GETMODE t = GETMODE s"
proof -
  have eq: "t = s\<lparr>m_DisplayPixels := m_DisplayPixels t\<rparr>"
    using assms by (simp add: only_pixels_differ_def)
  show "m_ModeClock t = m_ModeClock s" by (subst eq) simp
  show "m_LCDControllerStatus t = m_LCDControllerStatus s" by (subst eq) simp
  then show "GETMODE t = GETMODE s" by (simp add: GETMODE_def)
  show "m_LCDControl t = m_LCDControl s" by (subst eq) simp
  show "m_CPU t = m_CPU s" by (subst eq) simp
  show "m_LCDControllerYCoordinate t = m_LCDControllerYCoordinate s" by (subst eq) simp
  show "m_LYCompare t = m_LYCompare s" by (subst eq) simp
  show "m_VRAM t = m_VRAM s" by (subst eq) simp
  show "m_OAM t = m_OAM s" by (subst eq) simp
qed

text \<open>What the switch does to the mode and the clock.\<close>

lemma Step_switch_clock:
  assumes "Step_switch k s = Some (s1, log)"
  shows "(m_ModeClock s < ModeCycles k (GETMODE s) \<and> GETMODE s1 = GETMODE s
            \<and> m_ModeClock s1 = m_ModeClock s)
         \<or> (ModeCycles k (GETMODE s) \<le> m_ModeClock s
            \<and> m_ModeClock s1 = m_ModeClock s - ModeCycles k (GETMODE s))"
proof -
  consider "GETMODE s = ModeReadingOAM" | "GETMODE s = ModeReadingOAMVRAM"
    | "GETMODE s = ModeHBlank" | "GETMODE s = ModeVBlank"
    using GETMODE_cases[of s] by blast
  then show ?thesis
  proof cases
    case 1
    then show ?thesis using assms
      by (auto simp: Step_switch_def ModeCycles_def not_le split: if_splits)
  next
    case 2
    show ?thesis
    proof (cases "ReadingOAMVRAMCycles k \<le> m_ModeClock s")
      case True
      with 2 assms obtain s1' log' where
        r: "RenderScanline k (SETMODE ModeHBlank
              (s\<lparr>m_ModeClock := m_ModeClock s - ReadingOAMVRAMCycles k\<rparr>)) = Some (s1', log')"
        and s1: "s1 = s1'"
        by (auto simp: Step_switch_def mode_defs split: option.splits)
      from RenderScanline_inv[OF r] have "only_pixels_differ (SETMODE ModeHBlank
              (s\<lparr>m_ModeClock := m_ModeClock s - ReadingOAMVRAMCycles k\<rparr>)) s1'" by simp
      from only_pixels_differ_fields(1)[OF this] show ?thesis
        using True 2 s1 by (simp add: ModeCycles_def mode_defs)
    next
      case False
      then have nle: "(ReadingOAMVRAMCycles k \<le> m_ModeClock s) = False" by simp
      from False have "m_ModeClock s < ReadingOAMVRAMCycles k" by simp
      then show ?thesis using 2 assms
        by (simp add: Step_switch_def ModeCycles_def mode_defs nle)
    qed
  next
    case 3
    then show ?thesis using assms
      by (auto simp: Step_switch_def ModeCycles_def Let_def mode_defs not_le split: if_splits)
  next
    case 4
    then show ?thesis using assms
      by (auto simp: Step_switch_def ModeCycles_def Let_def mode_defs not_le split: if_splits)
  qed
qed

lemma Step_enabled_split:
  assumes "IsLCDDisplayEnabled s" and "Step k cycles s = Some (s', ev)"
  obtains s1 log1 where
    "Step_switch k (s\<lparr>m_ModeClock := m_ModeClock s + cycles\<rparr>) = Some (s1, log1)"
    "s' = fst (Step_coincidence s1)" "ev = log1 @ snd (Step_coincidence s1)"
  using assms unfolding Step_def
  by (auto split: option.splits prod.splits)

lemma GETMODE_clock_upd [simp]: "GETMODE (s\<lparr>m_ModeClock := c\<rparr>) = GETMODE s"
  by (simp add: GETMODE_def)

lemma zeroed_simps:
  "m_MMU zeroed = True" "m_LCDControl zeroed = 0" "m_LCDControllerStatus zeroed = 0" "m_ModeClock zeroed = 0"
  "m_LCDControllerYCoordinate zeroed = 0" "m_LYCompare zeroed = 0" "m_CPU zeroed = True"
  "m_pVSyncCallback zeroed = True"
  by (simp_all add: zeroed_def)

lemma dmg_simps:
  "ReadingOAMCycles dmg = 80" "ReadingOAMVRAMCycles dmg = 172" "HBlankCycles dmg = 204"
  "VBlankCycles dmg = 456"
  by (simp_all add: dmg_def)

lemmas eval_defs = Step_def Step_switch_def Step_coincidence_def IsLCDDisplayEnabled_def
  ISBITSET_def GETMODE_def SETMODE_def mode_defs zeroed_simps dmg_simps
  SETBIT_def CLEARBIT_def LYCoincidenceInterrupt_def VBlankInterrupt_def HBlankInterrupt_def
  RenderImage_def Let_def

lemma Step_coincidence_events:
  "snd (Step_coincidence s) =
     (if m_LYCompare s = m_LCDControllerYCoordinate s \<and> LYCoincidenceInterrupt s \<and> m_CPU s
      then [TriggerInterrupt INT48] else [])"
  by (auto simp: Step_coincidence_def Let_def LYCoincidenceInterrupt_def SETBIT_def ISBITSET_def
      bit_simps)

lemma Step_coincidence_LY:
  "m_LCDControllerYCoordinate (fst (Step_coincidence s)) = m_LCDControllerYCoordinate s"
  "m_LYCompare (fst (Step_coincidence s)) = m_LYCompare s"
  "m_CPU (fst (Step_coincidence s)) = m_CPU s"
  by (simp_all add: Step_coincidence_def Let_def)

lemma Step_switch_INT40:
  assumes "Step_switch k s = Some (s1, log)" and "TriggerInterrupt INT40 \<in> set log"
  shows "GETMODE s = ModeHBlank \<and> HBlankCycles k \<le> m_ModeClock s
         \<and> m_LCDControllerYCoordinate s + 1 = 144 \<and> m_CPU s"
proof -
  consider "GETMODE s = ModeReadingOAM" | "GETMODE s = ModeReadingOAMVRAM"
    | "GETMODE s = ModeHBlank" | "GETMODE s = ModeVBlank"
    using GETMODE_cases[of s] by blast
  then show ?thesis
  proof cases
    case 1
    then show ?thesis using assms by (auto simp: Step_switch_def split: if_splits)
  next
    case 2
    show ?thesis
    proof (cases "ReadingOAMVRAMCycles k \<le> m_ModeClock s")
      case True
      with 2 assms(1) obtain log' where
        r: "RenderScanline k (SETMODE ModeHBlank
              (s\<lparr>m_ModeClock := m_ModeClock s - ReadingOAMVRAMCycles k\<rparr>)) = Some (s1, log')"
        and log: "log = log' @ (if HBlankInterrupt s1 \<and> m_CPU s1 then [TriggerInterrupt INT48] else [])"
        by (auto simp: Step_switch_def mode_defs split: option.splits)
      from RenderScanline_inv[OF r] have "\<forall>e \<in> set log'. is_read e" by simp
      then have "TriggerInterrupt INT40 \<notin> set log'" by auto
      then show ?thesis using assms(2) log by (auto split: if_splits)
    next
      case False
      then show ?thesis using 2 assms by (simp add: Step_switch_def mode_defs)
    qed
  next
    case 3
    then show ?thesis using assms
      by (auto simp: Step_switch_def Let_def mode_defs RenderImage_def split: if_splits)
  next
    case 4
    then show ?thesis using assms
      by (auto simp: Step_switch_def Let_def mode_defs split: if_splits)
  qed
qed

lemma Step_coincidence_flag_bit:
  "ISBITSET (m_LCDControllerStatus (fst (Step_coincidence s))) 2
     \<longleftrightarrow> m_LCDControllerYCoordinate s = m_LYCompare s"
  by (auto simp: Step_coincidence_def Let_def SETBIT_def CLEARBIT_def ISBITSET_def bit_simps
      bit_int_4)

lemma Step_coincidence_enable_bit:
  "ISBITSET (m_LCDControllerStatus (fst (Step_coincidence s))) 6
     \<longleftrightarrow> ISBITSET (m_LCDControllerStatus s) 6"
  by (auto simp: Step_coincidence_def Let_def SETBIT_def CLEARBIT_def ISBITSET_def bit_simps
      bit_int_4 dest: bit_imp_le_length)

section \<open>The timing state machine\<close>

text \<open>
  Claim C2, as amended. The claim as written, that after every fully processed \<^verbatim>\<open>Step\<close> with
  the display on the mode clock is below the threshold of the mode then active, fails:
  \<^verbatim>\<open>Step\<close> subtracts one threshold once. What holds: if the display is on, the call
  returns, and the clock before the call plus \<open>cycles\<close> is less than the sum of the threshold
  of the mode at entry and the threshold of the mode at return, then the mode clock at
  return is strictly less than the threshold of the mode at return. The sum in the
  hypothesis is taken in the natural numbers, so a clock that wraps around is covered.
\<close>

theorem Step_mode_clock_bound:
  fixes s :: "('w::len) word gpu"
  assumes en: "IsLCDDisplayEnabled s"
    and step: "Step k cycles s = Some (s', ev)"
    and small: "unat (m_ModeClock s) + unat cycles
                  < unat (ModeCycles k (GETMODE s)) + unat (ModeCycles k (GETMODE s'))"
  shows "m_ModeClock s' < ModeCycles k (GETMODE s')"
proof -
  from en step obtain s1 log1 where
    sw: "Step_switch k (s\<lparr>m_ModeClock := m_ModeClock s + cycles\<rparr>) = Some (s1, log1)"
    and s': "s' = fst (Step_coincidence s1)"
    by (rule Step_enabled_split)
  have mode: "GETMODE s' = GETMODE s1" and clock: "m_ModeClock s' = m_ModeClock s1"
    using s' by (simp_all add: Step_coincidence_mode Step_coincidence_clock)
  let ?c = "m_ModeClock s + cycles"
  let ?T = "ModeCycles k (GETMODE s)"
  from Step_switch_clock[OF sw]
  consider (stay) "?c < ?T" "GETMODE s1 = GETMODE s" "m_ModeClock s1 = ?c"
    | (move) "?T \<le> ?c" "m_ModeClock s1 = ?c - ?T"
    by auto
  then show ?thesis
  proof cases
    case stay
    then show ?thesis using mode clock by simp
  next
    case move
    have "unat ?c \<le> unat (m_ModeClock s) + unat cycles"
      by (simp add: unat_word_ariths)
    moreover have "unat (?c - ?T) = unat ?c - unat ?T"
      using move(1) by (rule unat_sub)
    moreover have "unat ?T \<le> unat ?c" using move(1) by (simp add: word_le_nat_alt)
    ultimately have "unat (?c - ?T) < unat (ModeCycles k (GETMODE s'))"
      using small by linarith
    then show ?thesis using move(2) clock by (simp add: word_less_nat_alt)
  qed
qed

text \<open>
  Claim C2 as written is false: from mode 2 with clock 0, a call with 1000 cycles subtracts
  the 80 of mode 2 once, enters mode 3 and leaves the clock at 920, above mode 3's 172.
\<close>

theorem Step_mode_clock_counterexample:
  "IsLCDDisplayEnabled c2_state \<and>
   Step dmg 1000 c2_state
     = Some (c2_state\<lparr>m_ModeClock := 920, m_LCDControllerStatus := 0x07\<rparr>, []) \<and>
   GETMODE (c2_state\<lparr>m_ModeClock := 920, m_LCDControllerStatus := 0x07\<rparr>)
     = ModeReadingOAMVRAM \<and>
   \<not> m_ModeClock (c2_state\<lparr>m_ModeClock := 920, m_LCDControllerStatus := 0x07\<rparr>)
       < ModeCycles dmg (GETMODE (c2_state\<lparr>m_ModeClock := 920, m_LCDControllerStatus := 0x07\<rparr>))"
  by (simp add: c2_state_def Step_def Step_switch_def Step_coincidence_def IsLCDDisplayEnabled_def
      ISBITSET_def GETMODE_def SETMODE_def mode_defs zeroed_simps dmg_simps ModeCycles_def
      SETBIT_def CLEARBIT_def LYCoincidenceInterrupt_def Let_def)

text \<open>The amended C2 at a concrete call: 100 cycles from the same state.\<close>

theorem Step_mode_clock_bound_witness:
  "IsLCDDisplayEnabled c2_state \<and>
   Step dmg 100 c2_state
     = Some (c2_state\<lparr>m_ModeClock := 20, m_LCDControllerStatus := 0x07\<rparr>, []) \<and>
   m_ModeClock (c2_state\<lparr>m_ModeClock := 20, m_LCDControllerStatus := 0x07\<rparr>)
       < ModeCycles dmg (GETMODE (c2_state\<lparr>m_ModeClock := 20, m_LCDControllerStatus := 0x07\<rparr>))"
proof -
  let ?s' = "c2_state\<lparr>m_ModeClock := 20, m_LCDControllerStatus := 0x07\<rparr>"
  have en: "IsLCDDisplayEnabled c2_state"
    by (simp add: c2_state_def IsLCDDisplayEnabled_def ISBITSET_def zeroed_simps)
  have st: "Step dmg 100 c2_state = Some (?s', [])"
    by (simp add: c2_state_def Step_def Step_switch_def Step_coincidence_def IsLCDDisplayEnabled_def
      ISBITSET_def GETMODE_def SETMODE_def mode_defs zeroed_simps dmg_simps
      SETBIT_def CLEARBIT_def LYCoincidenceInterrupt_def Let_def)
  have small: "unat (m_ModeClock c2_state) + unat (100 :: 32 word)
                  < unat (ModeCycles dmg (GETMODE c2_state)) + unat (ModeCycles dmg (GETMODE ?s'))"
    by (simp add: c2_state_def GETMODE_def zeroed_simps ModeCycles_def mode_defs dmg_simps)
  from Step_mode_clock_bound[OF en st small] show ?thesis using en st by blast
qed

text \<open>
  Claim C4. For every state and every \<open>cycles\<close>, a \<^verbatim>\<open>Step\<close> made while bit 7 of the control
  register is clear returns the state with the scanline set to 153, the mode clock set to
  the V-Blank threshold and the mode bits set to V-Blank, and nothing else changed: the
  framebuffer is as before, the event list is empty (no interrupt, no read, no callback),
  and bit 2 of the status register, which the coincidence comparison would write, keeps
  its value.
\<close>

theorem Step_display_off:
  assumes "\<not> IsLCDDisplayEnabled s"
  shows "Step k cycles s =
     Some (s\<lparr>m_LCDControllerYCoordinate := 153, m_ModeClock := VBlankCycles k,
             m_LCDControllerStatus := (m_LCDControllerStatus s AND NOT 0x03) OR ModeVBlank\<rparr>, [])
       \<and> GETMODE (s\<lparr>m_LCDControllerYCoordinate := 153, m_ModeClock := VBlankCycles k,
             m_LCDControllerStatus := (m_LCDControllerStatus s AND NOT 0x03) OR ModeVBlank\<rparr>)
           = ModeVBlank
       \<and> (ISBITSET ((m_LCDControllerStatus s AND NOT 0x03) OR ModeVBlank) 2
            \<longleftrightarrow> ISBITSET (m_LCDControllerStatus s) 2)"
proof -
  have "GETMODE (SETMODE ModeVBlank (s\<lparr>m_LCDControllerYCoordinate := 153, m_ModeClock := VBlankCycles k\<rparr>))
      = ModeVBlank" by (rule GETMODE_SETMODE_VBlank)
  moreover have "ISBITSET (m_LCDControllerStatus (SETMODE ModeVBlank s)) 2
      = ISBITSET (m_LCDControllerStatus s) 2"
    by (rule SETMODE_high_bits) simp_all
  ultimately show ?thesis using assms by (simp add: Step_def SETMODE_def)
qed

text \<open>C4 at a concrete state with the display off.\<close>

theorem Step_display_off_witness:
  "\<not> IsLCDDisplayEnabled c4_state \<and>
   Step dmg 50 c4_state =
     Some (c4_state\<lparr>m_LCDControllerYCoordinate := 153, m_ModeClock := 456,
                     m_LCDControllerStatus := 0x49\<rparr>, [])"
proof -
  have off: "\<not> IsLCDDisplayEnabled c4_state"
    by (simp add: c4_state_def IsLCDDisplayEnabled_def ISBITSET_def zeroed_simps)
  from Step_display_off[OF off, of dmg 50] show ?thesis using off
    by (simp add: c4_state_def dmg_simps mode_defs)
qed

text \<open>
  Claim C3, as amended. When \<^verbatim>\<open>Step\<close> enters V-Blank (see \<open>VBlank_entry\<close>), the mode becomes
  V-Blank, the VSync callback is called if one is registered, and, provided a CPU is
  attached, exactly one V-Blank interrupt \<^verbatim>\<open>INT40\<close> is requested, followed by one \<^verbatim>\<open>INT48\<close> for
  V-Blank exactly when status bit 4 is set; with no CPU attached nothing is requested. The
  coincidence comparison that ends the same call requests a further \<^verbatim>\<open>INT48\<close> of its own
  when the compare register is 144, status bit 6 is set and a CPU is attached. In no other
  call does \<^verbatim>\<open>Step\<close> request \<^verbatim>\<open>INT40\<close>.
\<close>

theorem Step_VBlank_entry:
  fixes s :: "('w::len) word gpu"
  shows "(VBlank_entry k cycles s \<longrightarrow>
          Step k cycles s =
            Some (fst (Step_coincidence (SETMODE ModeVBlank
                    (s\<lparr>m_ModeClock := m_ModeClock s + cycles - HBlankCycles k,
                       m_LCDControllerYCoordinate := 144\<rparr>))),
                  (if m_pVSyncCallback s then [VSyncCallback] else []) @
                  (if m_CPU s
                   then TriggerInterrupt INT40 #
                        (if VBlankInterrupt s then [TriggerInterrupt INT48] else [])
                   else []) @
                  (if m_LYCompare s = 144 \<and> LYCoincidenceInterrupt s \<and> m_CPU s
                   then [TriggerInterrupt INT48] else []))
          \<and> GETMODE (fst (Step_coincidence (SETMODE ModeVBlank
                    (s\<lparr>m_ModeClock := m_ModeClock s + cycles - HBlankCycles k,
                       m_LCDControllerYCoordinate := 144\<rparr>)))) = ModeVBlank)
       \<and> (\<forall>s' ev. Step k cycles s = Some (s', ev) \<and> TriggerInterrupt INT40 \<in> set ev
            \<longrightarrow> VBlank_entry k cycles s \<and> m_CPU s)"
proof (intro conjI impI allI)
  assume entry: "VBlank_entry k cycles s"
  let ?s3 = "SETMODE ModeVBlank (s\<lparr>m_ModeClock := m_ModeClock s + cycles - HBlankCycles k,
                       m_LCDControllerYCoordinate := 144\<rparr>)"
  have hi: "VBlankInterrupt ?s3 = VBlankInterrupt s" "LYCoincidenceInterrupt ?s3 = LYCoincidenceInterrupt s"
    unfolding VBlankInterrupt_def LYCoincidenceInterrupt_def
    using SETMODE_high_bits[of ModeVBlank _ "s\<lparr>m_ModeClock := m_ModeClock s + cycles - HBlankCycles k,
                       m_LCDControllerYCoordinate := 144\<rparr>"] by simp_all
  have sw: "Step_switch k (s\<lparr>m_ModeClock := m_ModeClock s + cycles\<rparr>) =
      Some (?s3, RenderImage ?s3 @ (if m_CPU ?s3 then TriggerInterrupt INT40 #
                            (if VBlankInterrupt ?s3 then [TriggerInterrupt INT48] else [])
                       else []))"
    using entry unfolding VBlank_entry_def
    by (simp add: Step_switch_def Let_def mode_defs SETMODE_def)
  show "Step k cycles s = Some (fst (Step_coincidence ?s3),
                  (if m_pVSyncCallback s then [VSyncCallback] else []) @
                  (if m_CPU s
                   then TriggerInterrupt INT40 #
                        (if VBlankInterrupt s then [TriggerInterrupt INT48] else [])
                   else []) @
                  (if m_LYCompare s = 144 \<and> LYCoincidenceInterrupt s \<and> m_CPU s
                   then [TriggerInterrupt INT48] else []))"
    using entry sw hi unfolding VBlank_entry_def
    by (simp add: Step_def split_beta Step_coincidence_events RenderImage_def eq_commute[of "144::byte"])
  show "GETMODE (fst (Step_coincidence ?s3)) = ModeVBlank"
    by (simp add: Step_coincidence_mode GETMODE_SETMODE_VBlank)
next
  fix s' ev
  assume a: "Step k cycles s = Some (s', ev) \<and> TriggerInterrupt INT40 \<in> set ev"
  have en: "IsLCDDisplayEnabled s" using a by (auto simp: Step_def split: if_splits)
  from a have st: "Step k cycles s = Some (s', ev)" by simp
  from en st obtain s1 log1 where
    sw: "Step_switch k (s\<lparr>m_ModeClock := m_ModeClock s + cycles\<rparr>) = Some (s1, log1)"
    and "s' = fst (Step_coincidence s1)"
    and ev: "ev = log1 @ snd (Step_coincidence s1)"
    by (rule Step_enabled_split)
  have "TriggerInterrupt INT40 \<in> set log1"
    using a ev by (auto simp: Step_coincidence_events split: if_splits)
  from Step_switch_INT40[OF sw this] en
  have r: "VBlank_entry k cycles s \<and> m_CPU s" by (simp add: VBlank_entry_def)
  from r show "VBlank_entry k cycles s" by simp
  from r show "m_CPU s" by simp
qed

text \<open>The amended C3 at a concrete V-Blank entry, CPU and callback attached.\<close>

theorem Step_VBlank_entry_witness:
  "VBlank_entry dmg 204 c3_state \<and>
   Step dmg 204 c3_state =
     Some (c3_state\<lparr>m_LCDControllerYCoordinate := 144, m_LCDControllerStatus := 0x11\<rparr>,
           [VSyncCallback, TriggerInterrupt INT40, TriggerInterrupt INT48]) \<and>
   TriggerInterrupt INT40 \<in> set [VSyncCallback, TriggerInterrupt INT40, TriggerInterrupt INT48] \<and>
   m_CPU c3_state"
proof -
  have entry: "VBlank_entry dmg 204 c3_state"
    by (simp add: VBlank_entry_def c3_state_def eval_defs)
  have st: "Step dmg 204 c3_state =
     Some (c3_state\<lparr>m_LCDControllerYCoordinate := 144, m_LCDControllerStatus := 0x11\<rparr>,
           [VSyncCallback, TriggerInterrupt INT40, TriggerInterrupt INT48])"
    using Step_VBlank_entry[of dmg 204 c3_state] entry
    by (simp add: c3_state_def eval_defs)
  have "m_CPU c3_state"
    using Step_VBlank_entry[of dmg 204 c3_state] st by simp
  then show ?thesis using entry st by simp
qed

text \<open>
  Claim C3 as written is false. With no CPU attached the V-Blank entry requests no V-Blank
  interrupt at all, where the claim has exactly one, unconditionally. And with a CPU
  attached, status bit 4 clear, status bit 6 set and the compare register at 144, the call
  requests an LCD status interrupt next to the V-Blank interrupt although bit 4 is clear.
\<close>

theorem Step_VBlank_entry_counterexample:
  "VBlank_entry dmg 204 (c3_state\<lparr>m_CPU := False\<rparr>) \<and>
   Step dmg 204 (c3_state\<lparr>m_CPU := False\<rparr>) =
     Some (c3_state\<lparr>m_CPU := False, m_LCDControllerYCoordinate := 144,
                     m_LCDControllerStatus := 0x11\<rparr>, [VSyncCallback]) \<and>
   VBlank_entry dmg 204 c3_lyc_state \<and> \<not> VBlankInterrupt c3_lyc_state \<and>
   Step dmg 204 c3_lyc_state =
     Some (c3_lyc_state\<lparr>m_LCDControllerYCoordinate := 144, m_LCDControllerStatus := 0x45\<rparr>,
           [VSyncCallback, TriggerInterrupt INT40, TriggerInterrupt INT48])"
  by (simp add: VBlank_entry_def c3_state_def c3_lyc_state_def eval_defs)

text \<open>
  Claim C5, as amended. After every \<^verbatim>\<open>Step\<close> with the display on that returns, bit 2 of the
  status register is set exactly when the scanline equals the compare register; and the
  events of the call are those of the mode switch followed by one \<^verbatim>\<open>INT48\<close> on account of
  coincidence exactly when bit 2 is set, bit 6 is set and a CPU is attached. The claim as
  written leaves out the last condition.
\<close>

theorem Step_coincidence_flag:
  fixes s :: "('w::len) word gpu"
  assumes "IsLCDDisplayEnabled s" and "Step k cycles s = Some (s', ev)"
  shows "(ISBITSET (m_LCDControllerStatus s') 2
            \<longleftrightarrow> m_LCDControllerYCoordinate s' = m_LYCompare s')
       \<and> (\<exists>s1 log1.
            Step_switch k (s\<lparr>m_ModeClock := m_ModeClock s + cycles\<rparr>) = Some (s1, log1)
            \<and> ev = log1 @
                (if ISBITSET (m_LCDControllerStatus s') 2
                    \<and> ISBITSET (m_LCDControllerStatus s') 6 \<and> m_CPU s'
                 then [TriggerInterrupt INT48] else []))"
proof -
  from assms obtain s1 log1 where
    sw: "Step_switch k (s\<lparr>m_ModeClock := m_ModeClock s + cycles\<rparr>) = Some (s1, log1)"
    and s': "s' = fst (Step_coincidence s1)"
    and ev: "ev = log1 @ snd (Step_coincidence s1)"
    by (rule Step_enabled_split)
  have flag: "ISBITSET (m_LCDControllerStatus s') 2
            \<longleftrightarrow> m_LCDControllerYCoordinate s' = m_LYCompare s'"
    unfolding s' by (simp add: Step_coincidence_flag_bit Step_coincidence_LY)
  have "snd (Step_coincidence s1) =
      (if ISBITSET (m_LCDControllerStatus s') 2
                    \<and> ISBITSET (m_LCDControllerStatus s') 6 \<and> m_CPU s'
                 then [TriggerInterrupt INT48] else [])"
    unfolding s'
    by (simp add: Step_coincidence_events Step_coincidence_flag_bit Step_coincidence_enable_bit
        Step_coincidence_LY LYCoincidenceInterrupt_def eq_commute)
  with sw ev flag show ?thesis by simp
qed

text \<open>The amended C5 at a concrete call with coincidence, bit 6 set and a CPU attached.\<close>

theorem Step_coincidence_flag_witness:
  "IsLCDDisplayEnabled c5_state \<and>
   Step dmg 4 c5_state =
     Some (c5_state\<lparr>m_ModeClock := 4, m_LCDControllerStatus := 0x46\<rparr>, [TriggerInterrupt INT48]) \<and>
   ISBITSET (m_LCDControllerStatus (c5_state\<lparr>m_ModeClock := 4, m_LCDControllerStatus := 0x46\<rparr>)) 2"
proof -
  have en: "IsLCDDisplayEnabled c5_state" by (simp add: c5_state_def eval_defs)
  have st: "Step dmg 4 c5_state =
     Some (c5_state\<lparr>m_ModeClock := 4, m_LCDControllerStatus := 0x46\<rparr>, [TriggerInterrupt INT48])"
    by (simp add: c5_state_def eval_defs)
  from Step_coincidence_flag[OF en st]
  have "ISBITSET (m_LCDControllerStatus (c5_state\<lparr>m_ModeClock := 4, m_LCDControllerStatus := 0x46\<rparr>)) 2"
    by (simp add: c5_state_def zeroed_simps)
  with en st show ?thesis by simp
qed

text \<open>
  Claim C5 as written is false: in the same call with no CPU attached, bit 2 and bit 6 are
  both set after the call and no interrupt is requested.
\<close>

theorem Step_coincidence_flag_counterexample:
  "IsLCDDisplayEnabled (c5_state\<lparr>m_CPU := False\<rparr>) \<and>
   Step dmg 4 (c5_state\<lparr>m_CPU := False\<rparr>) =
     Some (c5_state\<lparr>m_CPU := False, m_ModeClock := 4, m_LCDControllerStatus := 0x46\<rparr>, []) \<and>
   ISBITSET (0x46 :: byte) 2 \<and> ISBITSET (0x46 :: byte) 6"
  by (simp add: c5_state_def eval_defs)

section \<open>The memory arbiter and the DMA copy\<close>

lemma vram_oam_disjoint: "vram_address a \<Longrightarrow> \<not> oam_address a"
  unfolding vram_address_def oam_address_def word_le_nat_alt by simp

lemma vram_index: "vram_address a \<Longrightarrow> unat a - 0x8000 < 0x2000"
  unfolding vram_address_def word_le_nat_alt by simp arith

lemma oam_index: "oam_address a \<Longrightarrow> unat a - 0xFE00 < 0xA0"
  unfolding oam_address_def word_le_nat_alt by simp arith

text \<open>
  Claim C6. For an address in the video-memory range \<open>8000..9FFF\<close>: when the display is
  on and the mode is 3, \<^verbatim>\<open>ReadByte\<close> returns 0 and \<^verbatim>\<open>WriteByte\<close> returns false and changes
  nothing; otherwise \<^verbatim>\<open>ReadByte\<close> returns the stored byte and \<^verbatim>\<open>WriteByte\<close> stores the value
  and returns true. For an address in the object-memory range \<open>FE00..FE9F\<close> the same holds
  with the gate open exactly when the display is on and the mode is 2 or 3.
\<close>

theorem memory_arbitration:
  "(vram_address a \<longrightarrow>
      (if IsLCDDisplayEnabled s \<and> GETMODE s = ModeReadingOAMVRAM
       then ReadByte k s a = 0x00 \<and> WriteByte k mmu a v s = Some (s, False, [])
       else ReadByte k s a = m_VRAM s (unat a - 0x8000)
            \<and> WriteByte k mmu a v s
                = Some (s\<lparr>m_VRAM := (m_VRAM s)(unat a - 0x8000 := v)\<rparr>, True, [])))
   \<and> (oam_address a \<longrightarrow>
      (if IsLCDDisplayEnabled s
          \<and> (GETMODE s = ModeReadingOAM \<or> GETMODE s = ModeReadingOAMVRAM)
       then ReadByte k s a = 0x00 \<and> WriteByte k mmu a v s = Some (s, False, [])
       else ReadByte k s a = m_OAM s (unat a - 0xFE00)
            \<and> WriteByte k mmu a v s
                = Some (s\<lparr>m_OAM := (m_OAM s)(unat a - 0xFE00 := v)\<rparr>, True, [])))"
proof (intro conjI impI)
  assume "vram_address a"
  then show "if IsLCDDisplayEnabled s \<and> GETMODE s = ModeReadingOAMVRAM
       then ReadByte k s a = 0x00 \<and> WriteByte k mmu a v s = Some (s, False, [])
       else ReadByte k s a = m_VRAM s (unat a - 0x8000)
            \<and> WriteByte k mmu a v s
                = Some (s\<lparr>m_VRAM := (m_VRAM s)(unat a - 0x8000 := v)\<rparr>, True, [])"
    by (simp add: ReadByte_def WriteByte_def vram_blocked_def)
next
  assume oam: "oam_address a"
  then have "\<not> vram_address a" using vram_oam_disjoint[of a] by blast
  with oam show "if IsLCDDisplayEnabled s
          \<and> (GETMODE s = ModeReadingOAM \<or> GETMODE s = ModeReadingOAMVRAM)
       then ReadByte k s a = 0x00 \<and> WriteByte k mmu a v s = Some (s, False, [])
       else ReadByte k s a = m_OAM s (unat a - 0xFE00)
            \<and> WriteByte k mmu a v s
                = Some (s\<lparr>m_OAM := (m_OAM s)(unat a - 0xFE00 := v)\<rparr>, True, [])"
    by (simp add: ReadByte_def WriteByte_def oam_blocked_def) blast
qed

text \<open>C6 at concrete addresses, with the gate closed and open.\<close>

theorem memory_arbitration_witness:
  "vram_address 0x9ABC \<and> oam_address 0xFE10 \<and>
   ReadByte dmg c6_state 0x9ABC = 0x00 \<and>
   WriteByte dmg (\<lambda>s a. 0) 0x9ABC 0x11 c6_state = Some (c6_state, False, []) \<and>
   ReadByte dmg (c6_state\<lparr>m_LCDControllerStatus := 0x00\<rparr>) 0x9ABC = 0x5A \<and>
   ReadByte dmg c6_state 0xFE10 = 0x00 \<and>
   WriteByte dmg (\<lambda>s a. 0) 0xFE10 0x11 c6_state = Some (c6_state, False, []) \<and>
   ReadByte dmg (c6_state\<lparr>m_LCDControllerStatus := 0x00\<rparr>) 0xFE10 = 0x77"
proof -
  let ?s0 = "c6_state\<lparr>m_LCDControllerStatus := 0x00\<rparr>"
  have v: "vram_address 0x9ABC" and o: "oam_address 0xFE10"
    by (simp_all add: vram_address_def oam_address_def)
  have b: "IsLCDDisplayEnabled c6_state" "GETMODE c6_state = ModeReadingOAMVRAM"
    by (simp_all add: c6_state_def IsLCDDisplayEnabled_def ISBITSET_def GETMODE_def mode_defs
        zeroed_simps)
  have m0: "GETMODE ?s0 \<noteq> ModeReadingOAMVRAM" "GETMODE ?s0 \<noteq> ModeReadingOAM"
    by (simp_all add: GETMODE_def mode_defs)
  have r1: "ReadByte dmg c6_state 0x9ABC = 0x00
      \<and> WriteByte dmg (\<lambda>s a. 0) 0x9ABC 0x11 c6_state = Some (c6_state, False, [])"
    using memory_arbitration[of "0x9ABC" c6_state dmg "\<lambda>s a. 0" "0x11"] v b by simp
  have r2: "ReadByte dmg c6_state 0xFE10 = 0x00
      \<and> WriteByte dmg (\<lambda>s a. 0) 0xFE10 0x11 c6_state = Some (c6_state, False, [])"
    using memory_arbitration[of "0xFE10" c6_state dmg "\<lambda>s a. 0" "0x11"] o b by simp
  have r3: "ReadByte dmg ?s0 0x9ABC = 0x5A"
    using memory_arbitration[of "0x9ABC" ?s0 dmg "\<lambda>s a. 0" "0x11"] v m0
    by (simp add: c6_state_def)
  have r4: "ReadByte dmg ?s0 0xFE10 = 0x77"
    using memory_arbitration[of "0xFE10" ?s0 dmg "\<lambda>s a. 0" "0x11"] o m0
    by (simp add: c6_state_def)
  from v o r1 r2 r3 r4 show ?thesis by simp
qed

subsection \<open>The DMA copy\<close>

lemma ucast_of_nat_byte:
  "i < 256 \<Longrightarrow> (ucast (of_nat i :: byte) :: ushort) = of_nat i"
  by (simp add: unsigned_of_nat take_bit_nat_eq_self)

lemma unat_of_nat_byte: "i < 256 \<Longrightarrow> unat (of_nat i :: byte) = i"
  by (simp add: unat_of_nat)

lemma DMA_source_or:
  "(ucast (v::byte) * 0x100 :: ushort) OR ucast (off::byte) = ucast v * 0x100 + ucast off"
proof -
  have "(ucast v * 0x100 :: ushort) = push_bit 8 (ucast v)" by (simp add: push_bit_eq_mult)
  moreover have "push_bit 8 (ucast v :: ushort) AND ucast off = 0"
    by (rule bit_eqI) (auto simp: bit_simps dest: bit_imp_le_length)
  ultimately show ?thesis
    by (simp add: disjunctive_add_eq_or)
qed

lemma DMA_address:
  assumes "i < 160"
  shows "(ucast (v::byte) * 0x100 :: ushort) OR ucast (of_nat i :: byte) = DMA_addr v i"
proof -
  have "(ucast (of_nat i :: byte) :: ushort) = of_nat i"
    using assms by (simp add: ucast_of_nat_byte)
  with DMA_source_or[of v "of_nat i"]
  have "(ucast v * 0x100 :: ushort) OR ucast (of_nat i :: byte) = ucast v * 0x100 + of_nat i"
    by simp
  then show ?thesis by (simp add: DMA_addr_def)
qed

lemma DMA_address_unat:
  assumes "i < 160"
  shows "unat (DMA_addr v i) = unat v * 256 + i"
proof -
  have "unat v < 256" using unsigned_less[of v, where 'a=nat] by simp
  then have "unat v * 256 + i < 65536" using assms by arith
  then show ?thesis unfolding DMA_addr_def by (subst unat_of_nat) simp
qed

lemma DMA_loop_Suc:
  "DMA_loop mmu v s (Suc n)
     = (case DMA_loop mmu v s n of
          None \<Rightarrow> None
        | Some sl \<Rightarrow> DMA_round mmu ((ucast v :: ushort) * 0x0100) (of_nat n) sl)"
  by (simp add: DMA_loop_def for_each_append split: option.splits)

lemma DMA_round_at:
  assumes "n < 160" and "m_MMU t"
  shows "DMA_round mmu ((ucast v :: ushort) * 0x0100) (of_nat n) (t, log)
     = Some (t\<lparr>m_OAM := (m_OAM t)(n := mmu t (DMA_addr v n))\<rparr>,
             log @ [MMUReadByte (DMA_addr v n) (mmu t (DMA_addr v n))])"
proof -
  have "unat (of_nat n :: byte) = n" using assms(1) by (simp add: unat_of_nat_byte)
  then show ?thesis
    unfolding DMA_round_def Let_def
    by (simp only: DMA_address[OF assms(1)] prod.case assms(2) if_True)
qed

lemma DMA_loop_result:
  assumes mmu: "m_MMU s"
  shows "n \<le> 160 \<Longrightarrow>
   \<exists>oam'. DMA_loop mmu v s n
            = Some (s\<lparr>m_OAM := oam'\<rparr>,
                    map (\<lambda>i. MMUReadByte (DMA_addr v i) (oam' i)) [0 ..< n])
          \<and> DMA_done mmu v s n oam'"
proof (induction n)
  case 0
  have base: "DMA_loop mmu v s 0
        = Some (s\<lparr>m_OAM := m_OAM s\<rparr>,
                map (\<lambda>i. MMUReadByte (DMA_addr v i) (m_OAM s i)) [0 ..< 0])
      \<and> DMA_done mmu v s 0 (m_OAM s)"
    by (simp add: DMA_loop_def DMA_done_def)
  show ?case by (rule exI[of _ "m_OAM s"]) (rule base)
next
  case (Suc n)
  then have n: "n < 160" by simp
  from Suc obtain oam' where
    loop: "DMA_loop mmu v s n
            = Some (s\<lparr>m_OAM := oam'\<rparr>,
                    map (\<lambda>i. MMUReadByte (DMA_addr v i) (oam' i)) [0 ..< n])"
    and fin: "DMA_done mmu v s n oam'" by auto
  let ?b = "mmu (s\<lparr>m_OAM := oam'\<rparr>) (DMA_addr v n)"
  let ?oam = "oam'(n := ?b)"
  have att: "m_MMU (s\<lparr>m_OAM := oam'\<rparr>)" using mmu by simp
  have same: "(\<lambda>j. if j < n then ?oam j else m_OAM s j) = oam'"
    using fin by (auto simp: DMA_done_def fun_eq_iff)
  have below: "(\<lambda>j. if j < i then ?oam j else m_OAM s j)
                 = (\<lambda>j. if j < i then oam' j else m_OAM s j)" if "i < n" for i
    using that by (auto simp: fun_eq_iff)
  have step: "DMA_loop mmu v s (Suc n)
      = Some (s\<lparr>m_OAM := ?oam\<rparr>,
         map (\<lambda>i. MMUReadByte (DMA_addr v i) (oam' i)) [0 ..< n] @ [MMUReadByte (DMA_addr v n) ?b])"
    by (simp add: DMA_loop_Suc loop DMA_round_at[OF n att])
  have log: "map (\<lambda>i. MMUReadByte (DMA_addr v i) (oam' i)) [0 ..< n] @ [MMUReadByte (DMA_addr v n) ?b]
        = map (\<lambda>i. MMUReadByte (DMA_addr v i) (?oam i)) [0 ..< Suc n]"
    by simp
  have "DMA_done mmu v s (Suc n) ?oam"
    unfolding DMA_done_def
  proof (intro conjI allI impI)
    fix i assume "i < Suc n"
    then consider "i < n" | "i = n" by arith
    then show "?oam i = mmu (s\<lparr>m_OAM := (\<lambda>j. if j < i then ?oam j else m_OAM s j)\<rparr>)
                          (DMA_addr v i)"
    proof cases
      case 1
      have "oam' i = mmu (s\<lparr>m_OAM := (\<lambda>j. if j < i then oam' j else m_OAM s j)\<rparr>) (DMA_addr v i)"
        using fin 1 by (simp add: DMA_done_def)
      then show ?thesis using 1 by (simp only: below[OF 1]) simp
    next
      case 2
      show ?thesis unfolding 2 by (simp only: same) simp
    qed
  next
    fix j assume "Suc n \<le> j"
    then show "?oam j = m_OAM s j" using fin by (simp add: DMA_done_def)
  qed
  then have next_round: "DMA_loop mmu v s (Suc n)
            = Some (s\<lparr>m_OAM := ?oam\<rparr>,
                    map (\<lambda>i. MMUReadByte (DMA_addr v i) (?oam i)) [0 ..< Suc n])
          \<and> DMA_done mmu v s (Suc n) ?oam"
    using step log by (simp only: simp_thms)
  show ?case by (rule exI[of _ ?oam]) (rule next_round)
qed

lemma LaunchDMATransfer_loop: "LaunchDMATransfer mmu v s = DMA_loop mmu v s 160"
  unfolding LaunchDMATransfer_def DMA_loop_def Let_def by (rule refl)

lemma LaunchDMATransfer_null:
  assumes "\<not> m_MMU s"
  shows "LaunchDMATransfer mmu v s = None"
proof -
  have "[0 ..< 160] = 0 # [Suc 0 ..< 160]" by (rule upt_conv_Cons) simp
  moreover have "DMA_round mmu ((ucast v :: ushort) * 0x0100) (of_nat 0) (s, []) = None"
    using assms by (simp add: DMA_round_def)
  ultimately show ?thesis
    unfolding LaunchDMATransfer_def Let_def by (simp only: for_each.simps option.case)
qed

text \<open>What a completed copy leaves: the state, the events and the bytes of object memory.\<close>

lemma LaunchDMATransfer_attached:
  assumes "m_MMU s"
  shows "\<exists>oam'. LaunchDMATransfer mmu v s
            = Some (s\<lparr>m_OAM := oam'\<rparr>,
                    map (\<lambda>i. MMUReadByte (of_nat (unat v * 256 + i)) (oam' i)) [0 ..< 160])
          \<and> (\<forall>i<160. oam' i =
                mmu (s\<lparr>m_OAM := (\<lambda>j. if j < i then oam' j else m_OAM s j)\<rparr>)
                    (of_nat (unat v * 256 + i)))
          \<and> (\<forall>j\<ge>160. oam' j = m_OAM s j)"
proof -
  have "(160::nat) \<le> 160" by simp
  from DMA_loop_result[OF assms this, of mmu v] obtain oam' where
    loop: "DMA_loop mmu v s 160
            = Some (s\<lparr>m_OAM := oam'\<rparr>,
                    map (\<lambda>i. MMUReadByte (DMA_addr v i) (oam' i)) [0 ..< 160])"
    and fin: "DMA_done mmu v s 160 oam'" by blast
  from loop fin have res: "LaunchDMATransfer mmu v s
            = Some (s\<lparr>m_OAM := oam'\<rparr>,
                    map (\<lambda>i. MMUReadByte (DMA_addr v i) (oam' i)) [0 ..< 160])
          \<and> (\<forall>i<160. oam' i =
                mmu (s\<lparr>m_OAM := (\<lambda>j. if j < i then oam' j else m_OAM s j)\<rparr>) (DMA_addr v i))
          \<and> (\<forall>j\<ge>160. oam' j = m_OAM s j)"
    by (simp only: LaunchDMATransfer_loop DMA_done_def simp_thms)
  show ?thesis by (rule exI[of _ oam']) (rule res[unfolded DMA_addr_def])
qed

lemma decls_ok_DMA:
  assumes "decls_ok k"
  shows "WriteByte k mmu (DMATransferAndStartAddress k) v s
           = (case LaunchDMATransfer mmu v s of
                None \<Rightarrow> None
              | Some (s', log) \<Rightarrow> Some (s', True, log))"
proof -
  let ?a = "DMATransferAndStartAddress k"
  have mem: "?a \<in> set (registers k)" by (simp add: registers_def)
  have range: "\<not> vram_address ?a" "\<not> oam_address ?a"
    using assms mem by (auto simp: decls_ok_def)
  have "distinct (registers k)" using assms by (simp add: decls_ok_def)
  then have ne: "?a \<noteq> LCDControl k" "?a \<noteq> LCDControllerStatus k" "?a \<noteq> ScrollY k"
    "?a \<noteq> ScrollX k" "?a \<noteq> LCDControllerYCoordinate k" "?a \<noteq> LYCompare k"
    "?a \<noteq> WindowYPosition k" "?a \<noteq> WindowXPositionMinus7 k" "?a \<noteq> BGPaletteData k"
    "?a \<noteq> ObjectPalette0Data k" "?a \<noteq> ObjectPalette1Data k"
    by (auto simp: registers_def)
  show ?thesis
    unfolding WriteByte_def by (simp only: range ne if_False if_True simp_thms)
qed

lemma decls_ok_dmg: "decls_ok dmg"
  by (simp add: decls_ok_def registers_def dmg_def vram_address_def oam_address_def)

lemma WriteByte_DMA_attached:
  assumes "decls_ok k" and "m_MMU s"
  shows "\<exists>oam'. WriteByte k mmu (DMATransferAndStartAddress k) v s
            = Some (s\<lparr>m_OAM := oam'\<rparr>, True,
                    map (\<lambda>i. MMUReadByte (of_nat (unat v * 256 + i)) (oam' i)) [0 ..< 160])
          \<and> (\<forall>i<160. oam' i =
                mmu (s\<lparr>m_OAM := (\<lambda>j. if j < i then oam' j else m_OAM s j)\<rparr>)
                    (of_nat (unat v * 256 + i)))
          \<and> (\<forall>j\<ge>160. oam' j = m_OAM s j)"
proof -
  from LaunchDMATransfer_attached[OF assms(2), of mmu v] obtain oam' where
    l: "LaunchDMATransfer mmu v s
            = Some (s\<lparr>m_OAM := oam'\<rparr>,
                    map (\<lambda>i. MMUReadByte (of_nat (unat v * 256 + i)) (oam' i)) [0 ..< 160])"
    and c: "\<forall>i<160. oam' i =
                mmu (s\<lparr>m_OAM := (\<lambda>j. if j < i then oam' j else m_OAM s j)\<rparr>)
                    (of_nat (unat v * 256 + i))"
           "\<forall>j\<ge>160. oam' j = m_OAM s j" by blast
  have w: "WriteByte k mmu (DMATransferAndStartAddress k) v s
            = Some (s\<lparr>m_OAM := oam'\<rparr>, True,
                    map (\<lambda>i. MMUReadByte (of_nat (unat v * 256 + i)) (oam' i)) [0 ..< 160])"
    by (simp only: decls_ok_DMA[OF assms(1)] l option.case prod.case)
  from w c have res: "WriteByte k mmu (DMATransferAndStartAddress k) v s
            = Some (s\<lparr>m_OAM := oam'\<rparr>, True,
                    map (\<lambda>i. MMUReadByte (of_nat (unat v * 256 + i)) (oam' i)) [0 ..< 160])
          \<and> (\<forall>i<160. oam' i =
                mmu (s\<lparr>m_OAM := (\<lambda>j. if j < i then oam' j else m_OAM s j)\<rparr>)
                    (of_nat (unat v * 256 + i)))
          \<and> (\<forall>j\<ge>160. oam' j = m_OAM s j)"
    by (simp only: simp_thms)
  show ?thesis by (rule exI[of _ oam']) (rule res)
qed






subsection \<open>The result of \<^verbatim>\<open>WriteByte\<close>\<close>

lemma WriteByte_memory:
  "vram_address a \<Longrightarrow>
     WriteByte k mmu a v s =
       (if vram_blocked s then Some (s, False, [])
        else Some (s\<lparr>m_VRAM := (m_VRAM s)(unat a - 0x8000 := v)\<rparr>, True, []))"
  "\<not> vram_address a \<Longrightarrow> oam_address a \<Longrightarrow>
     WriteByte k mmu a v s =
       (if oam_blocked s then Some (s, False, [])
        else Some (s\<lparr>m_OAM := (m_OAM s)(unat a - 0xFE00 := v)\<rparr>, True, []))"
  by (simp_all add: WriteByte_def)

lemma WriteByte_unrecognised:
  "\<not> vram_address a \<Longrightarrow> \<not> oam_address a \<Longrightarrow> a \<notin> set (registers k) \<Longrightarrow>
     WriteByte k mmu a v s = Some (s, False, [])"
  by (simp add: WriteByte_def registers_def)

lemma WriteByte_register:
  assumes "decls_ok k"
  shows
    "WriteByte k mmu (LCDControl k) v s = Some (s\<lparr>m_LCDControl := v\<rparr>, True, [])"
    "WriteByte k mmu (LCDControllerStatus k) v s = Some (s\<lparr>m_LCDControllerStatus := (v AND 0xF8) OR (m_LCDControllerStatus s AND 0x07)\<rparr>, True, [])"
    "WriteByte k mmu (ScrollY k) v s = Some (s\<lparr>m_ScrollY := v\<rparr>, True, [])"
    "WriteByte k mmu (ScrollX k) v s = Some (s\<lparr>m_ScrollX := v\<rparr>, True, [])"
    "WriteByte k mmu (LCDControllerYCoordinate k) v s = Some (s\<lparr>m_LCDControllerYCoordinate := 0\<rparr>, True, [])"
    "WriteByte k mmu (LYCompare k) v s = Some (s\<lparr>m_LYCompare := v\<rparr>, True, [])"
    "WriteByte k mmu (WindowYPosition k) v s = Some (s\<lparr>m_WindowYPosition := v\<rparr>, True, [])"
    "WriteByte k mmu (WindowXPositionMinus7 k) v s = Some (s\<lparr>m_WindowXPositionMinus7 := v\<rparr>, True, [])"
    "WriteByte k mmu (BGPaletteData k) v s = Some (s\<lparr>m_BGPaletteData := v\<rparr>, True, [])"
    "WriteByte k mmu (ObjectPalette0Data k) v s = Some (s\<lparr>m_ObjectPalette0Data := v\<rparr>, True, [])"
    "WriteByte k mmu (ObjectPalette1Data k) v s = Some (s\<lparr>m_ObjectPalette1Data := v\<rparr>, True, [])"
proof -
  have d: "distinct (registers k)" using assms by (simp add: decls_ok_def)
  have d': "distinct (rev (registers k))" using d by simp
  note ne = d[unfolded registers_def, simplified] d'[unfolded registers_def, simplified]
  have r: "\<forall>a \<in> set (registers k). \<not> vram_address a \<and> \<not> oam_address a"
    using assms by (simp add: decls_ok_def)
  note range = r[unfolded registers_def, simplified]
  show "WriteByte k mmu (LCDControl k) v s = Some (s\<lparr>m_LCDControl := v\<rparr>, True, [])"
    using range ne by (simp add: WriteByte_def)
  show "WriteByte k mmu (LCDControllerStatus k) v s = Some (s\<lparr>m_LCDControllerStatus := (v AND 0xF8) OR (m_LCDControllerStatus s AND 0x07)\<rparr>, True, [])"
    using range ne by (simp add: WriteByte_def)
  show "WriteByte k mmu (ScrollY k) v s = Some (s\<lparr>m_ScrollY := v\<rparr>, True, [])"
    using range ne by (simp add: WriteByte_def)
  show "WriteByte k mmu (ScrollX k) v s = Some (s\<lparr>m_ScrollX := v\<rparr>, True, [])"
    using range ne by (simp add: WriteByte_def)
  show "WriteByte k mmu (LCDControllerYCoordinate k) v s = Some (s\<lparr>m_LCDControllerYCoordinate := 0\<rparr>, True, [])"
    using range ne by (simp add: WriteByte_def)
  show "WriteByte k mmu (LYCompare k) v s = Some (s\<lparr>m_LYCompare := v\<rparr>, True, [])"
    using range ne by (simp add: WriteByte_def)
  show "WriteByte k mmu (WindowYPosition k) v s = Some (s\<lparr>m_WindowYPosition := v\<rparr>, True, [])"
    using range ne by (simp add: WriteByte_def)
  show "WriteByte k mmu (WindowXPositionMinus7 k) v s = Some (s\<lparr>m_WindowXPositionMinus7 := v\<rparr>, True, [])"
    using range ne by (simp add: WriteByte_def)
  show "WriteByte k mmu (BGPaletteData k) v s = Some (s\<lparr>m_BGPaletteData := v\<rparr>, True, [])"
    using range ne by (simp add: WriteByte_def)
  show "WriteByte k mmu (ObjectPalette0Data k) v s = Some (s\<lparr>m_ObjectPalette0Data := v\<rparr>, True, [])"
    using range ne by (simp add: WriteByte_def)
  show "WriteByte k mmu (ObjectPalette1Data k) v s = Some (s\<lparr>m_ObjectPalette1Data := v\<rparr>, True, [])"
    using range ne by (simp add: WriteByte_def)
qed

lemma registers_range:
  assumes "decls_ok k" and "a \<in> set (registers k)"
  shows "\<not> vram_address a" "\<not> oam_address a"
  using assms by (auto simp: decls_ok_def)

lemma ex_bool: "\<exists>r::bool. r" "Ex Not"
  by auto

text \<open>
  Claim C10, as amended. Provided an MMU is attached when the address is the DMA register,
  \<^verbatim>\<open>WriteByte\<close> returns; it returns false exactly when the write is dropped (a gated access
  to video or object memory, or an address that is neither memory nor a register), and
  then the state is unchanged and nothing is read; it returns true in every other case,
  and then: the byte is in video or object memory, or in the register written to, except
  that a write to the status register stores bits 7..3 of the byte and keeps bits 2..0; or
  the scanline is reset to 0; or the DMA copy has run: 160 reads at \<open>v * 256 + i\<close> in
  ascending order, each stored in byte \<open>i\<close> of object memory, nothing else changed.
\<close>

theorem WriteByte_return_value:
  assumes ok: "decls_ok k" and att: "m_MMU s \<or> a \<noteq> DMATransferAndStartAddress k"
  shows "\<exists>s' r ev. WriteByte k mmu a v s = Some (s', r, ev)
       \<and> (r \<longleftrightarrow> \<not> write_dropped k s a)
       \<and> (write_dropped k s a \<longrightarrow> s' = s \<and> ev = [])
       \<and> (\<not> write_dropped k s a \<longrightarrow>
            (vram_address a \<longrightarrow>
               s' = s\<lparr>m_VRAM := (m_VRAM s)(unat a - 0x8000 := v)\<rparr> \<and> ev = [])
          \<and> (oam_address a \<longrightarrow>
               s' = s\<lparr>m_OAM := (m_OAM s)(unat a - 0xFE00 := v)\<rparr> \<and> ev = [])
          \<and> (a = LCDControl k \<longrightarrow> s' = s\<lparr>m_LCDControl := v\<rparr> \<and> ev = [])
          \<and> (a = LCDControllerStatus k \<longrightarrow> s' = s\<lparr>m_LCDControllerStatus := (v AND 0xF8) OR (m_LCDControllerStatus s AND 0x07)\<rparr> \<and> ev = [])
          \<and> (a = ScrollY k \<longrightarrow> s' = s\<lparr>m_ScrollY := v\<rparr> \<and> ev = [])
          \<and> (a = ScrollX k \<longrightarrow> s' = s\<lparr>m_ScrollX := v\<rparr> \<and> ev = [])
          \<and> (a = LCDControllerYCoordinate k \<longrightarrow> s' = s\<lparr>m_LCDControllerYCoordinate := 0\<rparr> \<and> ev = [])
          \<and> (a = LYCompare k \<longrightarrow> s' = s\<lparr>m_LYCompare := v\<rparr> \<and> ev = [])
          \<and> (a = WindowYPosition k \<longrightarrow> s' = s\<lparr>m_WindowYPosition := v\<rparr> \<and> ev = [])
          \<and> (a = WindowXPositionMinus7 k \<longrightarrow> s' = s\<lparr>m_WindowXPositionMinus7 := v\<rparr> \<and> ev = [])
          \<and> (a = BGPaletteData k \<longrightarrow> s' = s\<lparr>m_BGPaletteData := v\<rparr> \<and> ev = [])
          \<and> (a = ObjectPalette0Data k \<longrightarrow> s' = s\<lparr>m_ObjectPalette0Data := v\<rparr> \<and> ev = [])
          \<and> (a = ObjectPalette1Data k \<longrightarrow> s' = s\<lparr>m_ObjectPalette1Data := v\<rparr> \<and> ev = [])
          \<and> (a = DMATransferAndStartAddress k \<longrightarrow>
               (\<exists>oam'. s' = s\<lparr>m_OAM := oam'\<rparr>
                  \<and> ev = map (\<lambda>i. MMUReadByte (of_nat (unat v * 256 + i)) (oam' i)) [0 ..< 160]
                  \<and> (\<forall>i<160. oam' i =
                        mmu (s\<lparr>m_OAM := (\<lambda>j. if j < i then oam' j else m_OAM s j)\<rparr>)
                            (of_nat (unat v * 256 + i)))
                  \<and> (\<forall>j\<ge>160. oam' j = m_OAM s j))))"
proof -
  have d: "distinct (registers k)" using ok by (simp add: decls_ok_def)
  have d': "distinct (rev (registers k))" using d by simp
  note ne = d[unfolded registers_def, simplified] d'[unfolded registers_def, simplified]
  have rr: "\<forall>a \<in> set (registers k). \<not> vram_address a \<and> \<not> oam_address a"
    using ok by (simp add: decls_ok_def)
  note range = rr[unfolded registers_def, simplified]
  consider (vram) "vram_address a"
    | (oam) "\<not> vram_address a" "oam_address a"
    | (reg) "\<not> vram_address a" "\<not> oam_address a" "a \<in> set (registers k)"
    | (none) "\<not> vram_address a" "\<not> oam_address a" "a \<notin> set (registers k)"
    by blast
  then show ?thesis
  proof cases
    case vram
    have "a \<notin> set (registers k)" using registers_range[OF ok] vram by blast
    then have nreg: "a \<noteq> LCDControl k" "a \<noteq> LCDControllerStatus k" "a \<noteq> ScrollY k"
      "a \<noteq> ScrollX k" "a \<noteq> LCDControllerYCoordinate k" "a \<noteq> LYCompare k"
      "a \<noteq> WindowYPosition k" "a \<noteq> WindowXPositionMinus7 k" "a \<noteq> BGPaletteData k"
      "a \<noteq> ObjectPalette0Data k" "a \<noteq> ObjectPalette1Data k"
      "a \<noteq> DMATransferAndStartAddress k"
      by (auto simp: registers_def)
    have no: "\<not> oam_address a" using vram vram_oam_disjoint by blast
    show ?thesis
    proof (cases "vram_blocked s")
      case True
      then have "write_dropped k s a" using vram by (simp add: write_dropped_def vram_blocked_def)
      then show ?thesis using vram True by (simp add: WriteByte_memory(1) ex_bool)
    next
      case False
      then have "\<not> write_dropped k s a"
        using vram no by (simp add: write_dropped_def vram_blocked_def)
      then show ?thesis using vram no nreg False by (simp add: WriteByte_memory(1) ex_bool)
    qed
  next
    case oam
    have "a \<notin> set (registers k)" using registers_range[OF ok] oam by blast
    then have nreg: "a \<noteq> LCDControl k" "a \<noteq> LCDControllerStatus k" "a \<noteq> ScrollY k"
      "a \<noteq> ScrollX k" "a \<noteq> LCDControllerYCoordinate k" "a \<noteq> LYCompare k"
      "a \<noteq> WindowYPosition k" "a \<noteq> WindowXPositionMinus7 k" "a \<noteq> BGPaletteData k"
      "a \<noteq> ObjectPalette0Data k" "a \<noteq> ObjectPalette1Data k"
      "a \<noteq> DMATransferAndStartAddress k"
      by (auto simp: registers_def)
    show ?thesis
    proof (cases "oam_blocked s")
      case True
      then have "write_dropped k s a" using oam by (simp add: write_dropped_def oam_blocked_def)
      then show ?thesis using oam True by (simp add: WriteByte_memory(2) ex_bool)
    next
      case False
      then have "\<not> write_dropped k s a"
        using oam by (simp add: write_dropped_def oam_blocked_def)
      then show ?thesis using oam nreg False by (simp add: WriteByte_memory(2) ex_bool)
    qed
  next
    case none
    then have "write_dropped k s a" by (simp add: write_dropped_def)
    then show ?thesis using none by (simp add: WriteByte_unrecognised ex_bool)
  next
    case reg
    have nd: "\<not> write_dropped k s a" using reg by (simp add: write_dropped_def)
    from reg(3) consider "a = LCDControl k" | "a = LCDControllerStatus k" | "a = ScrollY k"
      | "a = ScrollX k" | "a = LCDControllerYCoordinate k" | "a = LYCompare k"
      | "a = WindowYPosition k" | "a = WindowXPositionMinus7 k" | "a = BGPaletteData k"
      | "a = ObjectPalette0Data k" | "a = ObjectPalette1Data k"
      | "a = DMATransferAndStartAddress k"
      by (auto simp: registers_def)
    then show ?thesis
    proof cases
      case 1 show ?thesis using nd range ne unfolding 1
        by (simp add: WriteByte_register[OF ok] ex_bool)
    next
      case 2 show ?thesis using nd range ne unfolding 2
        by (simp add: WriteByte_register[OF ok] ex_bool)
    next
      case 3 show ?thesis using nd range ne unfolding 3
        by (simp add: WriteByte_register[OF ok] ex_bool)
    next
      case 4 show ?thesis using nd range ne unfolding 4
        by (simp add: WriteByte_register[OF ok] ex_bool)
    next
      case 5 show ?thesis using nd range ne unfolding 5
        by (simp add: WriteByte_register[OF ok] ex_bool)
    next
      case 6 show ?thesis using nd range ne unfolding 6
        by (simp add: WriteByte_register[OF ok] ex_bool)
    next
      case 7 show ?thesis using nd range ne unfolding 7
        by (simp add: WriteByte_register[OF ok] ex_bool)
    next
      case 8 show ?thesis using nd range ne unfolding 8
        by (simp add: WriteByte_register[OF ok] ex_bool)
    next
      case 9 show ?thesis using nd range ne unfolding 9
        by (simp add: WriteByte_register[OF ok] ex_bool)
    next
      case 10 show ?thesis using nd range ne unfolding 10
        by (simp add: WriteByte_register[OF ok] ex_bool)
    next
      case 11 show ?thesis using nd range ne unfolding 11
        by (simp add: WriteByte_register[OF ok] ex_bool)
    next
      case 12
      then have m: "m_MMU s" using att by simp
      from WriteByte_DMA_attached[OF ok m, of mmu v] obtain oam' where
        w: "WriteByte k mmu (DMATransferAndStartAddress k) v s
            = Some (s\<lparr>m_OAM := oam'\<rparr>, True,
                    map (\<lambda>i. MMUReadByte (of_nat (unat v * 256 + i)) (oam' i)) [0 ..< 160])"
        and c: "\<forall>i<160. oam' i =
                mmu (s\<lparr>m_OAM := (\<lambda>j. if j < i then oam' j else m_OAM s j)\<rparr>)
                    (of_nat (unat v * 256 + i))"
           "\<forall>j\<ge>160. oam' j = m_OAM s j" by blast
      have dma: "\<exists>oam''. s\<lparr>m_OAM := oam'\<rparr> = s\<lparr>m_OAM := oam''\<rparr>
                  \<and> map (\<lambda>i. MMUReadByte (of_nat (unat v * 256 + i)) (oam' i)) [0 ..< 160]
                      = map (\<lambda>i. MMUReadByte (of_nat (unat v * 256 + i)) (oam'' i)) [0 ..< 160]
                  \<and> (\<forall>i<160. oam'' i =
                        mmu (s\<lparr>m_OAM := (\<lambda>j. if j < i then oam'' j else m_OAM s j)\<rparr>)
                            (of_nat (unat v * 256 + i)))
                  \<and> (\<forall>j\<ge>160. oam'' j = m_OAM s j)"
        using c by (intro exI[of _ oam']) (simp only: simp_thms)
      show ?thesis
        unfolding 12 w using nd[unfolded 12] range ne dma
        by (simp add: ex_bool del: upt_rec_numeral map_eq_conv)
    qed
  qed
qed


text \<open>
  Claim C10 as written is false. A write of \<open>07\<close> to the status register returns true
  although the byte is not stored: the register still holds 0 and the state is as before.
  And a write to the DMA register of a unit built with a null MMU pointer returns neither
  true nor false.
\<close>

theorem WriteByte_return_value_counterexample:
  "decls_ok dmg \<and>
   m_LCDControllerStatus zeroed = 0x00 \<and>
   WriteByte dmg echo_mmu 0xFF41 0x07 zeroed = Some (zeroed, True, []) \<and>
   \<not> m_MMU no_mmu_state \<and>
   WriteByte dmg echo_mmu 0xFF46 0xF1 no_mmu_state = None"
proof -
  have a: "DMATransferAndStartAddress dmg = 0xFF46" by (simp add: dmg_def)
  have n: "\<not> m_MMU no_mmu_state" by (simp add: no_mmu_state_def)
  have "WriteByte dmg echo_mmu (DMATransferAndStartAddress dmg) 0xF1 no_mmu_state = None"
    by (simp only: decls_ok_DMA[OF decls_ok_dmg] LaunchDMATransfer_null[OF n] option.case)
  then have dma: "WriteByte dmg echo_mmu 0xFF46 0xF1 no_mmu_state = None" unfolding a .
  have stat: "WriteByte dmg echo_mmu 0xFF41 0x07 zeroed = Some (zeroed, True, [])"
    by (simp add: WriteByte_def dmg_def vram_address_def oam_address_def zeroed_def)
  show ?thesis using decls_ok_dmg n dma stat by (simp add: zeroed_simps)
qed

lemma dmg_DMA_address:
  "DMATransferAndStartAddress dmg = 0xFF46"
  "vram_address 0xFF46 = False" "oam_address 0xFF46 = False"
  "(0xFF46 = LCDControl dmg) = False" "(0xFF46 = LCDControllerStatus dmg) = False"
  "(0xFF46 = ScrollY dmg) = False" "(0xFF46 = ScrollX dmg) = False"
  "(0xFF46 = LCDControllerYCoordinate dmg) = False" "(0xFF46 = LYCompare dmg) = False"
  "(0xFF46 = WindowYPosition dmg) = False" "(0xFF46 = WindowXPositionMinus7 dmg) = False"
  "(0xFF46 = BGPaletteData dmg) = False" "(0xFF46 = ObjectPalette0Data dmg) = False"
  "(0xFF46 = ObjectPalette1Data dmg) = False"
  by (simp_all add: dmg_def vram_address_def oam_address_def)

text \<open>
  The amended C10 at writes to the scanline register, an unmapped address, video memory,
  the status register and the DMA register.
\<close>

theorem WriteByte_return_value_witness:
  "decls_ok dmg \<and> m_MMU c3_state \<and>
   WriteByte dmg echo_mmu 0xFF44 0x55 c3_state
     = Some (c3_state\<lparr>m_LCDControllerYCoordinate := 0\<rparr>, True, []) \<and>
   \<not> write_dropped dmg c3_state 0xFF44 \<and>
   WriteByte dmg echo_mmu 0x1234 0x55 c3_state = Some (c3_state, False, []) \<and>
   write_dropped dmg c3_state 0x1234 \<and>
   WriteByte dmg echo_mmu 0x8123 0x55 c3_state
     = Some (c3_state\<lparr>m_VRAM := (m_VRAM c3_state)(0x123 := 0x55)\<rparr>, True, []) \<and>
   \<not> write_dropped dmg c3_state 0x8123 \<and>
   WriteByte dmg echo_mmu 0xFF41 0xFF c3_state
     = Some (c3_state\<lparr>m_LCDControllerStatus := 0xF8\<rparr>, True, []) \<and>
   (case WriteByte dmg echo_mmu 0xFF46 0xF1 c3_state of
      None \<Rightarrow> False
    | Some (s', r, ev) \<Rightarrow>
        r \<and> length ev = 160 \<and> ev ! 159 = MMUReadByte 0xF19F 0x9F \<and> m_OAM s' 159 = 0x9F)"
proof -
  have m: "m_MMU c3_state" by (simp add: c3_state_def zeroed_def)
  have w1: "WriteByte dmg echo_mmu 0xFF44 0x55 c3_state
     = Some (c3_state\<lparr>m_LCDControllerYCoordinate := 0\<rparr>, True, [])"
    by (simp add: WriteByte_def dmg_def vram_address_def oam_address_def)
  have w2: "WriteByte dmg echo_mmu 0x1234 0x55 c3_state = Some (c3_state, False, [])"
    by (simp add: WriteByte_def dmg_def vram_address_def oam_address_def)
  have w3: "WriteByte dmg echo_mmu 0x8123 0x55 c3_state
     = Some (c3_state\<lparr>m_VRAM := (m_VRAM c3_state)(0x123 := 0x55)\<rparr>, True, [])"
    by (simp add: WriteByte_def vram_address_def vram_blocked_def GETMODE_def mode_defs
        c3_state_def zeroed_simps)
  have w4: "WriteByte dmg echo_mmu 0xFF41 0xFF c3_state
     = Some (c3_state\<lparr>m_LCDControllerStatus := 0xF8\<rparr>, True, [])"
    by (simp add: WriteByte_def dmg_def vram_address_def oam_address_def c3_state_def
        zeroed_simps)
  have rv: "r = (\<not> write_dropped dmg c3_state a)"
    if "WriteByte dmg echo_mmu a v c3_state = Some (s', r, ev)" for a v s' r ev
  proof -
    have "m_MMU c3_state \<or> a \<noteq> DMATransferAndStartAddress dmg" using m by simp
    from WriteByte_return_value[OF decls_ok_dmg this, of echo_mmu v]
    obtain s'' r' ev' where "WriteByte dmg echo_mmu a v c3_state = Some (s'', r', ev')"
      and "r' \<longleftrightarrow> \<not> write_dropped dmg c3_state a" by (elim exE conjE)
    with that show ?thesis by simp
  qed
  have d1: "\<not> write_dropped dmg c3_state 0xFF44" using rv[OF w1] by simp
  have d2: "write_dropped dmg c3_state 0x1234" using rv[OF w2] by simp
  have d3: "\<not> write_dropped dmg c3_state 0x8123" using rv[OF w3] by simp
  have att: "m_MMU c3_state \<or> 0xFF46 \<noteq> DMATransferAndStartAddress dmg" using m by simp
  have nd: "\<not> write_dropped dmg c3_state 0xFF46"
    by (simp add: write_dropped_def registers_def dmg_def vram_address_def oam_address_def)
  from WriteByte_return_value[OF decls_ok_dmg att, of echo_mmu "0xF1"]
  have "\<exists>s' r ev. WriteByte dmg echo_mmu 0xFF46 0xF1 c3_state = Some (s', r, ev) \<and> r \<and>
       (\<exists>oam'. s' = c3_state\<lparr>m_OAM := oam'\<rparr>
          \<and> ev = map (\<lambda>i. MMUReadByte (of_nat (unat (0xF1 :: byte) * 256 + i)) (oam' i)) [0 ..< 160]
          \<and> (\<forall>i<160. oam' i =
                echo_mmu (c3_state\<lparr>m_OAM := (\<lambda>j. if j < i then oam' j else m_OAM c3_state j)\<rparr>)
                    (of_nat (unat (0xF1 :: byte) * 256 + i)))
          \<and> (\<forall>j\<ge>160. oam' j = m_OAM c3_state j))"
    by (simp only: nd dmg_DMA_address simp_thms not_False_eq_True)
  then obtain s' r ev oam' where w: "WriteByte dmg echo_mmu 0xFF46 0xF1 c3_state = Some (s', r, ev)"
    and r: "r" and s': "s' = c3_state\<lparr>m_OAM := oam'\<rparr>"
    and ev: "ev = map (\<lambda>i. MMUReadByte (of_nat (unat (0xF1 :: byte) * 256 + i)) (oam' i)) [0 ..< 160]"
    and v: "\<forall>i<160. oam' i =
                echo_mmu (c3_state\<lparr>m_OAM := (\<lambda>j. if j < i then oam' j else m_OAM c3_state j)\<rparr>)
                    (of_nat (unat (0xF1 :: byte) * 256 + i))"
    and u: "\<forall>j\<ge>160. oam' j = m_OAM c3_state j"
    by (elim exE conjE)
  have "oam' 159 = 0x9F" using v by (simp add: echo_mmu_def)
  then have "r \<and> length ev = 160 \<and> ev ! 159 = MMUReadByte 0xF19F 0x9F \<and> m_OAM s' 159 = 0x9F"
    using r by (simp add: s' ev)
  then have dma: "case WriteByte dmg echo_mmu 0xFF46 0xF1 c3_state of
      None \<Rightarrow> False
    | Some (s', r, ev) \<Rightarrow>
        r \<and> length ev = 160 \<and> ev ! 159 = MMUReadByte 0xF19F 0x9F \<and> m_OAM s' 159 = 0x9F"
    by (simp add: w)
  from decls_ok_dmg m w1 d1 w2 d2 w3 d3 w4 dma show ?thesis by (intro conjI)
qed

section \<open>The scanline renderers\<close>

subsection \<open>A blank background line\<close>

lemma visible_index:
  "m_LCDControllerYCoordinate s < 144 \<Longrightarrow> x < 160
   \<Longrightarrow> unat (m_LCDControllerYCoordinate s) * 160 + x < DisplayPixelsSize"
  unfolding DisplayPixelsSize_def word_less_nat_alt by simp

lemma BG_blank_loop:
  assumes "m_LCDControllerYCoordinate s < 144"
  shows "n \<le> 160 \<Longrightarrow>
    for_each BG_blank_column [0 ..< n] (s, log)
      = Some (s\<lparr>m_DisplayPixels := blank_line s n\<rparr>, log)"
proof (induction n)
  case 0
  have "blank_line s 0 = m_DisplayPixels s" by (auto simp: blank_line_def fun_eq_iff)
  then show ?case by simp
next
  case (Suc n)
  then have n: "n < 160" by simp
  have idx: "unat (m_LCDControllerYCoordinate s) * 160 + n < DisplayPixelsSize"
    using assms n by (rule visible_index)
  have upd: "(blank_line s n)(unat (m_LCDControllerYCoordinate s) * 160 + n := GBColors 0)
      = blank_line s (Suc n)"
    by (auto simp: blank_line_def fun_eq_iff)
  have "BG_blank_column n (s\<lparr>m_DisplayPixels := blank_line s n\<rparr>, log)
      = Some (s\<lparr>m_DisplayPixels := blank_line s (Suc n)\<rparr>, log)"
    using idx upd by (simp add: BG_blank_column_def put_pixel_def)
  then show ?case using Suc by (simp add: for_each_append)
qed

lemma RenderBackground_off:
  assumes "\<not> BGDisplayEnable s" and "m_LCDControllerYCoordinate s < 144"
  shows "RenderBackgroundScanline k (s, log) = Some (s\<lparr>m_DisplayPixels := blank_line s 160\<rparr>, log)"
proof -
  have le: "(160::nat) \<le> 160" by simp
  have "RenderBackgroundScanline k (s, log) = for_each BG_blank_column [0 ..< 160] (s, log)"
    using assms(1) by (simp only: RenderBackgroundScanline_def fst_conv simp_thms if_True)
  also have "\<dots> = Some (s\<lparr>m_DisplayPixels := blank_line s 160\<rparr>, log)"
    using assms(2) le by (rule BG_blank_loop)
  finally show ?thesis .
qed

text \<open>
  C8. When the background-display bit of \<^verbatim>\<open>m_LCDControl\<close> is clear and the current scanline is
  one of the 144 rows of the framebuffer, \<^verbatim>\<open>RenderBackgroundScanline\<close> returns, has written
  \<^verbatim>\<open>GBColors[0]\<close> into the 160 columns of that row and nothing else, has changed no other
  field, and has added no read to the log of reads it was given. \<^verbatim>\<open>GBColors[0]\<close> is \<open>EB\<close>, the
  largest, that is lightest, of the four shades. The renderer is private: \<^verbatim>\<open>Step\<close> runs it on
  leaving mode 3, where the scanline is a row of the framebuffer in every state the unit
  reaches (\<open>scanline_inv\<close>); on another scanline the writes fall outside the array.
\<close>
theorem background_off_blank_line:
  assumes "\<not> BGDisplayEnable s" and "m_LCDControllerYCoordinate s < 144"
  shows "RenderBackgroundScanline k (s, log)
           = Some (s\<lparr>m_DisplayPixels :=
                      (\<lambda>i. if unat (m_LCDControllerYCoordinate s) * 160 \<le> i
                               \<and> i < unat (m_LCDControllerYCoordinate s) * 160 + 160
                            then GBColors 0 else m_DisplayPixels s i)\<rparr>, log)
         \<and> GBColors 0 = 0xEB \<and> (\<forall>i<4. GBColors i \<le> GBColors 0)"
proof -
  have r: "RenderBackgroundScanline k (s, log)
      = Some (s\<lparr>m_DisplayPixels := blank_line s 160\<rparr>, log)"
    using assms by (rule RenderBackground_off)
  have c: "GBColors 0 = 0xEB" by (simp add: GBColors_def)
  have "GBColors i \<le> GBColors 0" if "i < 4" for i
  proof -
    from that consider "i = 0" | "i = 1" | "i = 2" | "i = 3" by arith
    then show ?thesis by cases (simp_all add: GBColors_def)
  qed
  with r c show ?thesis unfolding blank_line_def by blast
qed

text \<open>C8 at scanline 2: the bytes 320 to 479 of the framebuffer become \<open>EB\<close>.\<close>

theorem background_off_blank_line_witness:
  "\<not> BGDisplayEnable c8_state \<and> m_LCDControllerYCoordinate c8_state < 144 \<and>
   RenderBackgroundScanline dmg (c8_state, [])
     = Some (c8_state\<lparr>m_DisplayPixels := (\<lambda>i. if 320 \<le> i \<and> i < 480 then 0xEB else 0)\<rparr>, [])"
proof -
  have off: "\<not> BGDisplayEnable c8_state"
    by (simp add: c8_state_def BGDisplayEnable_def ISBITSET_def zeroed_simps)
  have vis: "m_LCDControllerYCoordinate c8_state < 144" by (simp add: c8_state_def)
  have px: "(\<lambda>i. if unat (m_LCDControllerYCoordinate c8_state) * 160 \<le> i
                     \<and> i < unat (m_LCDControllerYCoordinate c8_state) * 160 + 160
                  then GBColors 0 else m_DisplayPixels c8_state i)
          = (\<lambda>i. if 320 \<le> i \<and> i < 480 then 0xEB else 0)"
    by (auto simp: fun_eq_iff c8_state_def zeroed_def GBColors_def)
  from background_off_blank_line[OF off vis, of dmg "[]"] show ?thesis
    using off vis unfolding px by simp
qed

subsection \<open>Addresses read by the renderers\<close>

lemma vram_address_of_int:
  assumes "0x8000 \<le> n" and "n \<le> 0x9FFF"
  shows "vram_address (word_of_int n :: ushort)"
proof -
  have "uint (word_of_int n :: ushort) = n"
    using assms by (simp add: uint_word_of_int)
  then show ?thesis using assms by (simp add: vram_address_def word_le_def)
qed

lemma uint_byte_of_int:
  assumes "0 \<le> m" and "m < 256"
  shows "uint (word_of_int m :: byte) = m"
  using assms by (simp add: uint_word_of_int)

lemma uint_byte_bounds: "0 \<le> uint (b :: byte)" "uint (b :: byte) \<le> 255"
  using uint_lt2p[of b] by simp_all

lemma sint_byte_bounds: "- 128 \<le> sint (b :: byte)" "sint (b :: byte) \<le> 127"
  using sint_ge[of b] sint_lt[of b] by simp_all

lemma word_of_int_sum: "(word_of_int a :: ushort) + word_of_int b = word_of_int (a + b)"
  by simp

lemma word_of_int_succ: "(word_of_int a :: ushort) + 1 = word_of_int (a + 1)"
  by simp

lemma BG_mapPtr_vram: "vram_address (BG_mapPtr s x)"
proof -
  let ?ty = "((uint (m_LCDControllerYCoordinate s) + uint (m_ScrollY s)) div 8) mod 32"
  let ?tx = "((uint (m_ScrollX s) + int x) div 8) mod 32"
  have ty: "0 \<le> ?ty" "?ty < 32" by simp_all
  have tx: "0 \<le> ?tx" "?tx < 32" by simp_all
  have uy: "uint (word_of_int ?ty :: byte) = ?ty" using ty by (intro uint_byte_of_int) simp_all
  have ux: "uint (word_of_int ?tx :: byte) = ?tx" using tx by (intro uint_byte_of_int) simp_all
  have gen: "vram_address (word_of_int (M + ?ty * 32 + ?tx) :: ushort)"
    if "M = 0x9C00 \<or> M = 0x9800" for M :: int
    using that ty tx by (intro vram_address_of_int) auto
  show ?thesis
  proof (cases "BGWTileMapDisplaySelect s")
    case True
    then have "BG_mapPtr s x = word_of_int (0x9C00 + ?ty * 32 + ?tx)"
      unfolding BG_mapPtr_def Let_def uy ux by (simp only: if_True)
    then show ?thesis by (simp only:) (rule gen, simp)
  next
    case False
    then have "BG_mapPtr s x = word_of_int (0x9800 + ?ty * 32 + ?tx)"
      unfolding BG_mapPtr_def Let_def uy ux by (simp only: if_False)
    then show ?thesis by (simp only:) (rule gen, simp)
  qed
qed

lemma BG_tileDataPtr_vram:
  "vram_address (BG_tileDataPtr s tn)" "vram_address (BG_tileDataPtr s tn + 1)"
proof -
  let ?off = "(uint (m_LCDControllerYCoordinate s) + uint (m_ScrollY s)) mod 8"
  have off: "0 \<le> ?off" "?off < 8" by simp_all
  have uo: "uint (word_of_int ?off :: byte) = ?off" using off by (intro uint_byte_of_int) simp_all
  note ub = uint_byte_bounds[of tn] and sb = sint_byte_bounds[of tn]
  have eq: "BG_tileDataPtr s tn =
      word_of_int ((if BGWindowTileDataSelect s then 0x8000 + uint tn * 0x10
                    else 0x9000 + sint tn * 0x10) + ?off * 2)"
    unfolding BG_tileDataPtr_def Let_def uo by (simp only: word_of_int_sum split: if_split) simp
  show "vram_address (BG_tileDataPtr s tn)"
    unfolding eq using off ub sb by (intro vram_address_of_int) auto
  show "vram_address (BG_tileDataPtr s tn + 1)"
    unfolding eq word_of_int_succ using off ub sb by (intro vram_address_of_int) auto
qed

lemma OBJ_tilePointer_vram:
  assumes "OBJ_on_scanline s i"
  shows "vram_address (OBJ_tilePointer s i)" "vram_address (OBJ_tilePointer s i + 1)"
proof -
  let ?h = "OBJ_height s"
  let ?y = "uint (m_OAM s i) - 16"
  let ?ly = "uint (m_LCDControllerYCoordinate s)"
  let ?r = "if ISBITSET (m_OAM s (i + 3)) 6 then (?h - 1) - (?ly - ?y) else ?ly - ?y"
  let ?tn = "if (if OBJSize s then 0x10 else 0x08 :: byte) = 0x10
             then m_OAM s (i + 2) AND 0xFE else m_OAM s (i + 2)"
  have h: "?h = (if OBJSize s then 16 else 8)" by (simp add: OBJ_height_def)
  have on: "?y \<le> ?ly" "?ly < ?y + ?h"
    using assms by (simp_all add: OBJ_on_scanline_def Let_def)
  have r: "0 \<le> ?r" "?r < ?h" using on by (auto split: if_splits)
  then have "?r < 256" using h by (auto split: if_splits)
  then have ur: "uint (word_of_int ?r :: byte) = ?r" using r(1) by (intro uint_byte_of_int)
  have tn: "0 \<le> uint ?tn" "uint ?tn * 16 + ?h * 2 \<le> 0x1000"
  proof -
    show "0 \<le> uint ?tn" by simp
    show "uint ?tn * 16 + ?h * 2 \<le> 0x1000"
    proof (cases "OBJSize s")
      case True
      have "m_OAM s (i + 2) AND 0xFE \<le> 0xFE" by (rule word_and_le1)
      then have "uint (m_OAM s (i + 2) AND 0xFE) \<le> 254" by (simp add: word_le_def)
      then show ?thesis using True h by simp
    next
      case False
      then show ?thesis using uint_byte_bounds[of "m_OAM s (i + 2)"] h by simp
    qed
  qed
  have eq: "OBJ_tilePointer s i = word_of_int (0x8000 + uint ?tn * 16 + ?r * 2)"
    unfolding OBJ_tilePointer_def Let_def ur by (simp only: word_of_int_sum)
  show "vram_address (OBJ_tilePointer s i)"
    unfolding eq using r tn by (intro vram_address_of_int) linarith+
  show "vram_address (OBJ_tilePointer s i + 1)"
    unfolding eq word_of_int_succ using r tn by (intro vram_address_of_int) linarith+
qed


subsection \<open>What the renderers read\<close>

lemma ReadByte_unblocked:
  assumes "only_pixels_differ t u" and "\<not> vram_blocked t" and "vram_address a"
  shows "ReadByte k u a = m_VRAM t (unat a - 0x8000)"
proof -
  note f = only_pixels_differ_fields[OF assms(1)]
  have "vram_blocked u = vram_blocked t"
    by (simp add: vram_blocked_def IsLCDDisplayEnabled_def f)
  then show ?thesis using assms(2,3) by (simp add: ReadByte_def f)
qed

lemma BG_column_reads:
  assumes "reads_inv t sl" and "\<not> vram_blocked t" and "BG_column k x sl = Some sl2"
  shows "reads_inv t sl2"
proof -
  obtain u log where sl: "sl = (u, log)" by (cases sl)
  have u: "only_pixels_differ t u" using assms(1) sl by (simp add: reads_inv_def)
  note rd = ReadByte_unblocked[OF u assms(2)]
  from assms(3) obtain u' where
    put: "put_pixel (unat (m_LCDControllerYCoordinate u) * 160 + x)
            (BG_palette u
               (unat (if ISBITSET (ReadByte k u (BG_tileDataPtr u (ReadByte k u (BG_mapPtr u x))))
                        (unat (word_of_int (7 - ((uint (m_ScrollX u) + int x) mod 8)) :: byte))
                      then 0x01 else 0x00 :: byte)
              + unat (if ISBITSET (ReadByte k u (BG_tileDataPtr u (ReadByte k u (BG_mapPtr u x)) + 1))
                        (unat (word_of_int (7 - ((uint (m_ScrollX u) + int x) mod 8)) :: byte))
                      then 0x02 else 0x00 :: byte))) u = Some u'"
    and sl2: "sl2 = (u', log @
        [ReadByteCall (BG_mapPtr u x) (ReadByte k u (BG_mapPtr u x)),
         ReadByteCall (BG_tileDataPtr u (ReadByte k u (BG_mapPtr u x)))
           (ReadByte k u (BG_tileDataPtr u (ReadByte k u (BG_mapPtr u x)))),
         ReadByteCall (BG_tileDataPtr u (ReadByte k u (BG_mapPtr u x)) + 1)
           (ReadByte k u (BG_tileDataPtr u (ReadByte k u (BG_mapPtr u x)) + 1))])"
    unfolding sl BG_column_def Let_def prod.case
    by (auto split: option.splits)
  have u': "only_pixels_differ t u'" using u put by (rule put_pixel_only_pixels)
  have old: "\<forall>e \<in> set log. \<exists>a. vram_address a \<and> e = ReadByteCall a (m_VRAM t (unat a - 0x8000))"
    using assms(1) sl by (simp add: reads_inv_def)
  show ?thesis
    unfolding reads_inv_def sl2 using u' old
    by (auto simp: rd BG_mapPtr_vram BG_tileDataPtr_vram
        intro: BG_mapPtr_vram BG_tileDataPtr_vram)
qed

lemma BG_blank_column_reads:
  "reads_inv t sl \<Longrightarrow> BG_blank_column x sl = Some sl2 \<Longrightarrow> reads_inv t sl2"
  unfolding reads_inv_def BG_blank_column_def
  by (cases sl) (auto split: option.splits dest: put_pixel_only_pixels)

lemma OBJ_sprite_reads:
  assumes "reads_inv t sl" and "\<not> vram_blocked t" and "OBJ_sprite k i sl = Some sl2"
  shows "reads_inv t sl2"
proof -
  obtain u log where sl: "sl = (u, log)" by (cases sl)
  have u: "only_pixels_differ t u" using assms(1) sl by (simp add: reads_inv_def)
  note rd = ReadByte_unblocked[OF u assms(2)]
  show ?thesis
  proof (cases "OBJ_on_scanline u i")
    case False
    then have "sl2 = sl" using assms(3) sl by (simp add: OBJ_sprite_def)
    then show ?thesis using assms(1) by simp
  next
    case True
    note va = OBJ_tilePointer_vram[OF True]
    from assms(3) True obtain u' fl lo hi pal x where
      loop: "for_each (OBJ_pixel fl lo hi pal x) [0 ..< 8] u = Some u'"
      and sl2: "sl2 = (u', log @
        [ReadByteCall (OBJ_tilePointer u i) (ReadByte k u (OBJ_tilePointer u i)),
         ReadByteCall (OBJ_tilePointer u i + 1) (ReadByte k u (OBJ_tilePointer u i + 1))])"
      unfolding sl OBJ_sprite_def Let_def prod.case
      by (auto split: option.splits)
    have u': "only_pixels_differ t u'" using loop u by (rule OBJ_pixel_loop_only_pixels)
    have old: "\<forall>e \<in> set log. \<exists>a. vram_address a \<and> e = ReadByteCall a (m_VRAM t (unat a - 0x8000))"
      using assms(1) sl by (simp add: reads_inv_def)
    show ?thesis
      unfolding reads_inv_def sl2 using u' old va
      by (auto simp: rd)
  qed
qed

lemma RenderScanline_reads:
  assumes "RenderScanline k t = Some (s', log)" and "\<not> vram_blocked t"
  shows "\<forall>e \<in> set log. \<exists>a. vram_address a \<and> e = ReadByteCall a (m_VRAM t (unat a - 0x8000))"
proof -
  from assms(1) obtain sl where bg: "RenderBackgroundScanline k (t, []) = Some sl"
    and obj: "(if OBJDisplayEnable (fst sl) then RenderOBJScanline k sl else Some sl) = Some (s', log)"
    unfolding RenderScanline_def by (auto split: option.splits)
  have init: "reads_inv t (t, [])" by (simp add: reads_inv_def only_pixels_differ_refl)
  have "reads_inv t sl"
  proof (cases "BGDisplayEnable t")
    case True
    with bg have "for_each (BG_column k) [0 ..< 160] (t, []) = Some sl"
      by (simp add: RenderBackgroundScanline_def)
    then show ?thesis using init
      by (rule for_each_invariant) (rule BG_column_reads[OF _ assms(2)])
  next
    case False
    with bg have "for_each BG_blank_column [0 ..< 160] (t, []) = Some sl"
      by (simp add: RenderBackgroundScanline_def)
    then show ?thesis using init by (rule for_each_invariant) (rule BG_blank_column_reads)
  qed
  moreover have "reads_inv t sl \<Longrightarrow> RenderOBJScanline k sl = Some sl2 \<Longrightarrow> reads_inv t sl2" for sl2
    unfolding RenderOBJScanline_def
    by (erule for_each_invariant[rotated]) (auto dest: OBJ_sprite_reads[OF _ assms(2)])
  ultimately have "reads_inv t (s', log)" using obj by (auto split: if_splits)
  then show ?thesis by (simp add: reads_inv_def)
qed


subsection \<open>The renderers return on a visible scanline\<close>

lemma for_each_total:
  assumes "P s" and "\<And>x s. x \<in> set xs \<Longrightarrow> P s \<Longrightarrow> \<exists>t. body x s = Some t \<and> P t"
  shows "\<exists>t. for_each body xs s = Some t \<and> P t"
  using assms
proof (induction xs arbitrary: s)
  case Nil
  then show ?case by simp
next
  case (Cons x xs)
  from Cons.prems(2)[of x s] Cons.prems(1) obtain t where t: "body x s = Some t" "P t" by auto
  have "\<exists>t'. for_each body xs t = Some t' \<and> P t'"
  proof (rule Cons.IH[OF t(2)])
    fix y u assume "y \<in> set xs" and "P u"
    then show "\<exists>v. body y u = Some v \<and> P v" using Cons.prems(2)[of y u] by simp
  qed
  then show ?case using t(1) by simp
qed

lemma put_pixel_visible:
  assumes "visible s" and "x < 160"
  shows "\<exists>t. put_pixel (unat (m_LCDControllerYCoordinate s) * 160 + x) c s = Some t \<and> visible t"
  using visible_index[of s x] assms by (simp add: put_pixel_def visible_def)

lemma BG_blank_column_total:
  "visible (fst sl) \<Longrightarrow> x < 160 \<Longrightarrow> \<exists>sl2. BG_blank_column x sl = Some sl2 \<and> visible (fst sl2)"
  using put_pixel_visible[of "fst sl" x "GBColors 0"]
  by (cases sl) (auto simp: BG_blank_column_def)

lemma BG_column_total:
  assumes "visible (fst sl)" and "x < 160"
  shows "\<exists>sl2. BG_column k x sl = Some sl2 \<and> visible (fst sl2)"
proof -
  obtain u log where sl: "sl = (u, log)" by (cases sl)
  have v: "visible u" using assms(1) sl by simp
  show ?thesis
    unfolding sl BG_column_def Let_def prod.case
    using put_pixel_visible[OF v assms(2)]
    by (auto split: option.splits) (metis option.distinct(1) option.inject)+
qed

lemma OBJ_pixel_total:
  assumes "visible s"
  shows "\<exists>t. OBJ_pixel fl lo hi pal x ix s = Some t \<and> visible t"
proof (cases "0 \<le> x + int ix \<and> x + int ix < 160")
  case False
  then show ?thesis using assms by (auto simp: OBJ_pixel_def Let_def)
next
  case True
  then have n: "nat (x + int ix) < 160" by linarith
  from visible_index[of s "nat (x + int ix)"] assms n
  have idx: "unat (m_LCDControllerYCoordinate s) * 160 + nat (x + int ix) < DisplayPixelsSize"
    by (simp add: visible_def)
  show ?thesis
    using True idx assms put_pixel_visible[OF assms n]
    by (auto simp: OBJ_pixel_def Let_def)
qed

lemma OBJ_sprite_total:
  assumes "visible (fst sl)"
  shows "\<exists>sl2. OBJ_sprite k i sl = Some sl2 \<and> visible (fst sl2)"
proof -
  obtain u log where sl: "sl = (u, log)" by (cases sl)
  have v: "visible u" using assms sl by simp
  have "\<exists>t. for_each (OBJ_pixel fl lo hi pal x) [0 ..< 8] u = Some t \<and> visible t" for fl lo hi pal x
    using v by (rule for_each_total) (rule OBJ_pixel_total)
  then show ?thesis
    unfolding sl OBJ_sprite_def Let_def prod.case using v
    by (auto split: option.splits) (metis option.distinct(1) option.inject)+
qed

lemma RenderScanline_total:
  assumes "visible t"
  shows "\<exists>r. RenderScanline k t = Some r"
proof -
  have init: "visible (fst (t, []))" using assms by simp
  have "\<exists>sl. RenderBackgroundScanline k (t, []) = Some sl \<and> visible (fst sl)"
  proof (cases "BGDisplayEnable t")
    case True
    have "\<exists>sl. for_each (BG_column k) [0 ..< 160] (t, []) = Some sl \<and> visible (fst sl)"
      using init by (rule for_each_total) (rule BG_column_total, simp_all)
    then show ?thesis using True by (simp add: RenderBackgroundScanline_def)
  next
    case False
    have "\<exists>sl. for_each BG_blank_column [0 ..< 160] (t, []) = Some sl \<and> visible (fst sl)"
      using init by (rule for_each_total) (rule BG_blank_column_total, simp_all)
    then show ?thesis using False by (simp add: RenderBackgroundScanline_def)
  qed
  then obtain sl where bg: "RenderBackgroundScanline k (t, []) = Some sl" and v: "visible (fst sl)"
    by blast
  have "\<exists>sl2. RenderOBJScanline k sl = Some sl2 \<and> visible (fst sl2)"
    unfolding RenderOBJScanline_def using v by (rule for_each_total) (rule OBJ_sprite_total)
  then show ?thesis using bg by (auto simp: RenderScanline_def)
qed

lemma Step_returns:
  fixes s :: "('w::len) word gpu"
  assumes "m_LCDControllerYCoordinate s < 144"
  shows "\<exists>r. Step k cycles s = Some r"
proof (cases "IsLCDDisplayEnabled s")
  case False
  then show ?thesis by (simp add: Step_def)
next
  case True
  let ?s = "s\<lparr>m_ModeClock := m_ModeClock s + cycles\<rparr>"
  have "\<exists>r. Step_switch k ?s = Some r"
  proof (cases "GETMODE s = ModeReadingOAMVRAM \<and> ReadingOAMVRAMCycles k \<le> m_ModeClock ?s")
    case True
    have "visible (SETMODE ModeHBlank (?s\<lparr>m_ModeClock := m_ModeClock ?s - ReadingOAMVRAMCycles k\<rparr>))"
      using assms by (simp add: visible_def)
    from RenderScanline_total[OF this, of k] obtain r where
      "RenderScanline k (SETMODE ModeHBlank
          (?s\<lparr>m_ModeClock := m_ModeClock ?s - ReadingOAMVRAMCycles k\<rparr>)) = Some r" by blast
    then show ?thesis using True
      by (cases r) (simp add: Step_switch_def mode_defs)
  next
    case False
    then show ?thesis
      by (auto simp: Step_switch_def Let_def)
  qed
  then show ?thesis using True by (auto simp: Step_def split: prod.splits)
qed

text \<open>
  C9. Take a call of \<^verbatim>\<open>Step\<close> with the display enabled, in mode 3, whose cycles bring the mode
  clock to the mode's threshold: the call that leaves mode 3 for HBlank. On a scanline of the
  framebuffer, which it is in every state the unit reaches (\<open>scanline_inv\<close>), the call
  returns. Whenever it returns, the renderers have run on the state \<open>t\<close>
  that \<^verbatim>\<open>SETMODE(ModeHBlank)\<close> produced, whose mode is HBlank, so the gate of \<^verbatim>\<open>ReadByte\<close> on
  video memory is open there; every read of the call was issued by the renderers (what follows
  them issues none); and every such read is at an address of video memory and returned the
  byte stored there, not the \<open>0\<close> of the gate.
\<close>
theorem Step_render_reads_unblocked:
  fixes s :: "('w::len) word gpu"
  assumes en: "IsLCDDisplayEnabled s"
    and mode: "GETMODE s = ModeReadingOAMVRAM"
    and reach: "ReadingOAMVRAMCycles k \<le> m_ModeClock s + cycles"
  shows "(m_LCDControllerYCoordinate s < 144 \<longrightarrow> Step k cycles s \<noteq> None)
       \<and> (\<forall>s' ev. Step k cycles s = Some (s', ev) \<longrightarrow>
            (\<exists>t s1 log rest.
                t = SETMODE ModeHBlank
                      (s\<lparr>m_ModeClock := m_ModeClock s + cycles - ReadingOAMVRAMCycles k\<rparr>)
              \<and> GETMODE t = ModeHBlank
              \<and> \<not> (IsLCDDisplayEnabled t \<and> GETMODE t = ModeReadingOAMVRAM)
              \<and> RenderScanline k t = Some (s1, log)
              \<and> ev = log @ rest \<and> (\<forall>e \<in> set rest. \<not> is_read e))
          \<and> (\<forall>a v. ReadByteCall a v \<in> set ev \<longrightarrow>
                vram_address a \<and> v = m_VRAM s (unat a - 0x8000)))"
proof (intro conjI impI allI)
  assume "m_LCDControllerYCoordinate s < 144"
  then show "Step k cycles s \<noteq> None" using Step_returns[of s k cycles] by auto
next
  fix s' ev
  assume st: "Step k cycles s = Some (s', ev)"
  let ?t = "SETMODE ModeHBlank
              (s\<lparr>m_ModeClock := m_ModeClock s + cycles - ReadingOAMVRAMCycles k\<rparr>)"
  from en st obtain s1 log1 where
    sw: "Step_switch k (s\<lparr>m_ModeClock := m_ModeClock s + cycles\<rparr>) = Some (s1, log1)"
    and s': "s' = fst (Step_coincidence s1)"
    and ev: "ev = log1 @ snd (Step_coincidence s1)"
    by (rule Step_enabled_split)
  from sw mode reach obtain log where
    r: "RenderScanline k ?t = Some (s1, log)"
    and log1: "log1 = log @ (if HBlankInterrupt s1 \<and> m_CPU s1 then [TriggerInterrupt INT48] else [])"
    by (auto simp: Step_switch_def mode_defs split: option.splits)
  have m: "GETMODE ?t = ModeHBlank" by (rule GETMODE_SETMODE_HBlank)
  then have nb: "\<not> vram_blocked ?t" by (simp add: vram_blocked_def mode_defs)
  let ?rest = "(if HBlankInterrupt s1 \<and> m_CPU s1 then [TriggerInterrupt INT48] else [])
                 @ snd (Step_coincidence s1)"
  have rest: "\<forall>e \<in> set ?rest. \<not> is_read e"
    by (auto simp: Step_coincidence_events)
  have evr: "ev = log @ ?rest" using ev log1 by simp
  show "\<exists>t s1 log rest.
                t = ?t
              \<and> GETMODE t = ModeHBlank
              \<and> \<not> (IsLCDDisplayEnabled t \<and> GETMODE t = ModeReadingOAMVRAM)
              \<and> RenderScanline k t = Some (s1, log)
              \<and> ev = log @ rest \<and> (\<forall>e \<in> set rest. \<not> is_read e)"
    using m nb r evr rest unfolding vram_blocked_def by blast
  have reads: "\<forall>e \<in> set log. \<exists>a. vram_address a \<and> e = ReadByteCall a (m_VRAM ?t (unat a - 0x8000))"
    using r nb by (rule RenderScanline_reads)
  {
    fix a v assume "ReadByteCall a v \<in> set ev"
    then have "ReadByteCall a v \<in> set log"
      using evr rest by (auto simp: Step_coincidence_events split: if_splits)
    with reads have "vram_address a \<and> v = m_VRAM s (unat a - 0x8000)" by auto
  }
  then show "\<And>a v. ReadByteCall a v \<in> set ev \<Longrightarrow> vram_address a"
    and "\<And>a v. ReadByteCall a v \<in> set ev \<Longrightarrow> v = m_VRAM s (unat a - 0x8000)"
    by blast+
qed

section \<open>The scanline stays on the framebuffer\<close>

text \<open>
  \<open>scanline_inv\<close> holds after the constructor, which ends with \<^verbatim>\<open>SETMODE(ModeVBlank)\<close>, and
  \<^verbatim>\<open>Step\<close> and \<^verbatim>\<open>WriteByte\<close> keep it: \<^verbatim>\<open>Step\<close> leaves VBlank only with scanline 0 and counts
  the scanline up only in HBlank, where it enters VBlank at 144; \<^verbatim>\<open>WriteByte\<close> leaves the mode
  bits alone and can only reset the scanline. So whenever \<^verbatim>\<open>Step\<close> runs the renderers the
  scanline is a row of the framebuffer, and \<^verbatim>\<open>Step\<close> returns.
\<close>

lemma mode_distinct:
  "ModeHBlank \<noteq> ModeVBlank" "ModeReadingOAM \<noteq> ModeVBlank" "ModeReadingOAMVRAM \<noteq> ModeVBlank"
  "ModeHBlank \<noteq> ModeReadingOAM" "ModeHBlank \<noteq> ModeReadingOAMVRAM"
  "ModeReadingOAM \<noteq> ModeReadingOAMVRAM"
  "ModeVBlank \<noteq> ModeHBlank" "ModeVBlank \<noteq> ModeReadingOAM" "ModeVBlank \<noteq> ModeReadingOAMVRAM"
  "ModeReadingOAM \<noteq> ModeHBlank" "ModeReadingOAMVRAM \<noteq> ModeHBlank"
  "ModeReadingOAMVRAM \<noteq> ModeReadingOAM"
  by (simp_all add: mode_defs)

lemma scanline_inv_VBlank: "scanline_inv (SETMODE ModeVBlank s)"
  by (simp add: scanline_inv_def GETMODE_SETMODE_VBlank)

lemma LY_succ_visible:
  assumes "(y :: byte) < 144" and "y + 1 \<noteq> 144"
  shows "y + 1 < 144"
proof -
  from assms(1) have u: "unat y < 144" by (simp add: word_less_nat_alt)
  then have s: "unat (y + 1) = unat y + 1" by (simp add: unat_word_ariths)
  from assms(2) have "unat (y + 1) \<noteq> 144" by (simp add: word_unat_eq_iff)
  with u s show ?thesis by (simp add: word_less_nat_alt)
qed

lemma Step_switch_scanline_inv:
  fixes s :: "('w::len) word gpu"
  assumes "scanline_inv s"
  shows "\<exists>s1 log. Step_switch k s = Some (s1, log) \<and> scanline_inv s1"
proof -
  consider (oam) "GETMODE s = ModeReadingOAM" | (vram) "GETMODE s = ModeReadingOAMVRAM"
    | (hblank) "GETMODE s = ModeHBlank" | (vblank) "GETMODE s = ModeVBlank"
    using GETMODE_cases[of s] by blast
  then show ?thesis
  proof cases
    case oam
    then have ly: "m_LCDControllerYCoordinate s < 144"
      using assms by (simp add: scanline_inv_def mode_distinct)
    show ?thesis using oam ly assms
      by (simp add: Step_switch_def scanline_inv_def)
  next
    case vram
    then have ly: "m_LCDControllerYCoordinate s < 144"
      using assms by (simp add: scanline_inv_def mode_distinct)
    show ?thesis
    proof (cases "ReadingOAMVRAMCycles k \<le> m_ModeClock s")
      case False
      then show ?thesis using vram assms by (simp add: Step_switch_def mode_distinct)
    next
      case True
      let ?t = "SETMODE ModeHBlank (s\<lparr>m_ModeClock := m_ModeClock s - ReadingOAMVRAMCycles k\<rparr>)"
      have "visible ?t" using ly by (simp add: visible_def)
      from RenderScanline_total[OF this, of k] obtain s1 log
        where r: "RenderScanline k ?t = Some (s1, log)" by auto
      from RenderScanline_inv[OF r] have o: "only_pixels_differ ?t s1" by simp
      have "m_LCDControllerYCoordinate s1 < 144"
        using ly by (simp add: only_pixels_differ_fields(5)[OF o])
      then have "scanline_inv s1" by (simp add: scanline_inv_def)
      then show ?thesis using vram True r by (simp add: Step_switch_def mode_distinct)
    qed
  next
    case hblank
    then have ly: "m_LCDControllerYCoordinate s < 144"
      using assms by (simp add: scanline_inv_def mode_distinct)
    show ?thesis
    proof (cases "HBlankCycles k \<le> m_ModeClock s")
      case False
      then show ?thesis using hblank assms by (simp add: Step_switch_def mode_distinct)
    next
      case True
      show ?thesis
      proof (cases "m_LCDControllerYCoordinate s + 1 = 144")
        case e: True
        then show ?thesis using hblank True
          by (simp add: Step_switch_def mode_distinct Let_def scanline_inv_VBlank)
      next
        case ne: False
        with ly have "m_LCDControllerYCoordinate s + 1 < 144" by (rule LY_succ_visible)
        then show ?thesis using hblank True ne
          by (simp add: Step_switch_def mode_distinct Let_def scanline_inv_def)
      qed
    qed
  next
    case vblank
    show ?thesis
    proof (cases "VBlankCycles k \<le> m_ModeClock s")
      case False
      then show ?thesis using vblank assms by (simp add: Step_switch_def mode_distinct)
    next
      case True
      then show ?thesis using vblank
        by (simp add: Step_switch_def mode_distinct Let_def scanline_inv_def GETMODE_def)
    qed
  qed
qed

lemma Step_scanline_inv:
  fixes s :: "('w::len) word gpu"
  assumes "scanline_inv s"
  shows "\<exists>s' ev. Step k cycles s = Some (s', ev) \<and> scanline_inv s'"
proof (cases "IsLCDDisplayEnabled s")
  case False
  then show ?thesis by (simp add: Step_def scanline_inv_VBlank)
next
  case True
  have "scanline_inv (s\<lparr>m_ModeClock := m_ModeClock s + cycles\<rparr>)"
    using assms by (simp add: scanline_inv_def)
  from Step_switch_scanline_inv[OF this, of k] obtain s1 log
    where sw: "Step_switch k (s\<lparr>m_ModeClock := m_ModeClock s + cycles\<rparr>) = Some (s1, log)"
      and i: "scanline_inv s1" by blast
  have "scanline_inv (fst (Step_coincidence s1))"
    using i by (simp add: scanline_inv_def Step_coincidence_mode Step_coincidence_LY)
  then show ?thesis using True sw by (simp add: Step_def case_prod_beta)
qed

lemma DMA_round_scanline:
  assumes "DMA_round mmu source offset (s, log) = Some (t, log')"
  shows "m_LCDControllerStatus t = m_LCDControllerStatus s
       \<and> m_LCDControllerYCoordinate t = m_LCDControllerYCoordinate s"
  using assms by (auto simp: DMA_round_def Let_def split: if_splits)

lemma LaunchDMATransfer_scanline:
  assumes "LaunchDMATransfer mmu v s = Some (t, log)"
  shows "m_LCDControllerStatus t = m_LCDControllerStatus s
       \<and> m_LCDControllerYCoordinate t = m_LCDControllerYCoordinate s"
proof -
  let ?P = "\<lambda>sl. m_LCDControllerStatus (fst sl) = m_LCDControllerStatus s
       \<and> m_LCDControllerYCoordinate (fst sl) = m_LCDControllerYCoordinate s"
  from assms have "for_each (\<lambda>offset. DMA_round mmu (ucast v * 0x0100) (of_nat offset))
      [0 ..< 160] (s, []) = Some (t, log)"
    by (simp only: LaunchDMATransfer_def Let_def)
  then have "?P (t, log)"
  proof (rule for_each_invariant)
    show "?P (s, [])" by simp
  next
    fix x sl sl2
    assume "?P sl" and "DMA_round mmu (ucast v * 0x0100) (of_nat x) sl = Some sl2"
    then show "?P sl2" using DMA_round_scanline[of mmu _ _ "fst sl" "snd sl" "fst sl2" "snd sl2"]
      by simp
  qed
  then show ?thesis by simp
qed

lemma status_write_mode:
  "((v AND 0xF8) OR (st AND 0x07)) AND 0x03 = st AND (0x03 :: byte)"
  by (simp add: bit.conj_disj_distrib2 and.assoc)

lemma WriteByte_scanline_inv:
  assumes "scanline_inv s" and "WriteByte k mmu a v s = Some (s', r, ev)"
  shows "scanline_inv s'"
proof -
  have "GETMODE s' = GETMODE s
      \<and> (m_LCDControllerYCoordinate s' = m_LCDControllerYCoordinate s
         \<or> m_LCDControllerYCoordinate s' = 0)"
    using assms(2) unfolding WriteByte_def
    by (auto simp: status_write_mode GETMODE_def dest!: LaunchDMATransfer_scanline
        split: if_splits option.splits)
  then show ?thesis using assms(1) by (auto simp: scanline_inv_def)
qed

section \<open>The sprite renderer on one sprite\<close>

text \<open>
  A sprite whose entry in object memory starts with a zero byte has \<^verbatim>\<open>y = -16\<close> and ends above
  scanline 0: the outer loop passes it by.
\<close>

lemma OBJ_off_scanline:
  "m_OAM s i = 0 \<Longrightarrow> \<not> OBJ_on_scanline s i"
  apply (simp add: OBJ_on_scanline_def OBJ_height_def Let_def)
  using uint_ge_0[of "m_LCDControllerYCoordinate s"] apply arith
  done

lemma OBJ_sprite_skip:
  "\<not> OBJ_on_scanline s i \<Longrightarrow> OBJ_sprite k i (s, log) = Some (s, log)"
  by (simp add: OBJ_sprite_def)

lemma OBJ_sprites_skip:
  "(\<And>i. i \<in> set xs \<Longrightarrow> \<not> OBJ_on_scanline s i)
   \<Longrightarrow> for_each (OBJ_sprite k) xs (s, log) = Some (s, log)"
  by (induction xs) (simp_all add: OBJ_sprite_skip)

lemma sprite_line:
  assumes f: "m_LCDControl t = 0x82" "m_LCDControllerStatus t = 0x00"
    "m_LCDControllerYCoordinate t = 0" "m_ObjectPalette0Data t = 0xE4"
    "m_VRAM t = (\<lambda>_. 0)(0 := 0x80)" "m_OAM t = (\<lambda>_. 0)(0 := 16, Suc 0 := 8, 3 := 0x80)"
  shows "OBJ_sprite dmg 0 (t, log) =
     Some (if m_DisplayPixels t 0 = 0x00
           then t\<lparr>m_DisplayPixels := (m_DisplayPixels t)(0 := GBColors 1)\<rparr> else t,
           log @ [ReadByteCall 0x8000 0x80, ReadByteCall 0x8001 0x00])"
  by (simp add: OBJ_sprite_def OBJ_on_scanline_def OBJ_height_def OBJSize_def
      OBJ_tilePointer_def ReadByte_def vram_address_def vram_blocked_def OBJ_palette_def
      OBJ_pixel_def put_pixel_def DisplayPixelsSize_def ISBITSET_def GBColors_def
      IsLCDDisplayEnabled_def GETMODE_def mode_defs Let_def f upt_conv_Cons)


lemma sprite_scanline:
  assumes f: "m_LCDControl t = 0x82" "m_LCDControllerStatus t = 0x00"
    "m_LCDControllerYCoordinate t = 0" "m_ObjectPalette0Data t = 0xE4"
    "m_VRAM t = (\<lambda>_. 0)(0 := 0x80)" "m_OAM t = (\<lambda>_. 0)(0 := 16, Suc 0 := 8, 3 := 0x80)"
  shows "RenderOBJScanline dmg (t, log) =
     Some (if m_DisplayPixels t 0 = 0x00
           then t\<lparr>m_DisplayPixels := (m_DisplayPixels t)(0 := GBColors 1)\<rparr> else t,
           log @ [ReadByteCall 0x8000 0x80, ReadByteCall 0x8001 0x00])"
proof -
  let ?u = "if m_DisplayPixels t 0 = 0x00
            then t\<lparr>m_DisplayPixels := (m_DisplayPixels t)(0 := GBColors 1)\<rparr> else t"
  let ?log = "log @ [ReadByteCall 0x8000 0x80, ReadByteCall 0x8001 0x00]"
  have sprites: "map (\<lambda>n. 4 * n) [0 ..< 40] = 0 # map (\<lambda>n. 4 * n) [1 ..< 40]"
    by (simp add: upt_conv_Cons del: upt_rec_numeral)
  have oam: "m_OAM ?u = m_OAM t" by simp
  have rest: "\<not> OBJ_on_scanline ?u i" if "i \<in> set (map (\<lambda>n. 4 * n) [1 ..< 40])" for i
  proof (rule OBJ_off_scanline)
    from that have "4 \<le> i" by auto
    then show "m_OAM ?u i = 0" unfolding oam f by simp
  qed
  have "RenderOBJScanline dmg (t, log)
      = for_each (OBJ_sprite dmg) (map (\<lambda>n. 4 * n) [1 ..< 40]) (?u, ?log)"
    unfolding RenderOBJScanline_def sprites for_each.simps sprite_line[OF f] by simp
  also have "\<dots> = Some (?u, ?log)" using rest by (rule OBJ_sprites_skip)
  finally show ?thesis .
qed

lemma sprite_state_fields:
  "m_LCDControl sprite_state = 0x82" "m_LCDControllerStatus sprite_state = 0x03"
  "m_LCDControllerYCoordinate sprite_state = 0" "m_LYCompare sprite_state = 0"
  "m_ModeClock sprite_state = 0" "m_CPU sprite_state = True"
  "m_ObjectPalette0Data sprite_state = 0xE4" "m_ObjectPalette1Data sprite_state = 0"
  "m_VRAM sprite_state = (\<lambda>_. 0)(0 := 0x80)"
  "m_OAM sprite_state = (\<lambda>_. 0)(0 := 16, Suc 0 := 8, 3 := 0x80)"
  "m_DisplayPixels sprite_state = (\<lambda>_. 0)"
  by (simp_all add: sprite_state_def zeroed_def)

text \<open>
  The renderers on the state in which \<^verbatim>\<open>Step\<close> runs them when it leaves mode 3 from
  \<open>sprite_state\<close>, and that call of \<^verbatim>\<open>Step\<close>.
\<close>

lemma sprite_render:
  "RenderScanline dmg (sprite_state\<lparr>m_LCDControllerStatus := 0x00\<rparr>)
     = Some (sprite_state\<lparr>m_LCDControllerStatus := 0x00,
               m_DisplayPixels := (\<lambda>i. if i < 160 then GBColors 0 else 0)\<rparr>,
             [ReadByteCall 0x8000 0x80, ReadByteCall 0x8001 0x00])"
proof -
  let ?t = "sprite_state\<lparr>m_LCDControllerStatus := 0x00\<rparr>"
  let ?b = "?t\<lparr>m_DisplayPixels := blank_line ?t 160\<rparr>"
  have off: "\<not> BGDisplayEnable ?t"
    by (simp add: BGDisplayEnable_def ISBITSET_def sprite_state_fields)
  have vis: "m_LCDControllerYCoordinate ?t < 144" by (simp add: sprite_state_fields)
  have bg: "RenderBackgroundScanline dmg (?t, []) = Some (?b, [])"
    using off vis by (rule RenderBackground_off)
  have px: "blank_line ?t 160 = (\<lambda>i. if i < 160 then GBColors 0 else 0)"
    by (auto simp: blank_line_def fun_eq_iff sprite_state_fields)
  have obj: "OBJDisplayEnable ?b"
    by (simp add: OBJDisplayEnable_def ISBITSET_def sprite_state_fields)
  have f: "m_LCDControl ?b = 0x82" "m_LCDControllerStatus ?b = 0x00"
    "m_LCDControllerYCoordinate ?b = 0" "m_ObjectPalette0Data ?b = 0xE4"
    "m_VRAM ?b = (\<lambda>_. 0)(0 := 0x80)" "m_OAM ?b = (\<lambda>_. 0)(0 := 16, Suc 0 := 8, 3 := 0x80)"
    by (simp_all add: sprite_state_fields)
  have white: "m_DisplayPixels ?b 0 \<noteq> 0x00" by (simp add: px GBColors_def)
  have "RenderOBJScanline dmg (?b, []) = Some (?b, [ReadByteCall 0x8000 0x80, ReadByteCall 0x8001 0x00])"
    unfolding sprite_scanline[OF f] using white by simp
  then show ?thesis unfolding RenderScanline_def bg using obj px by simp
qed

lemma sprite_step:
  "Step dmg 172 sprite_state
     = Some (sprite_state\<lparr>m_LCDControllerStatus := 0x04,
               m_DisplayPixels := (\<lambda>i. if i < 160 then GBColors 0 else 0)\<rparr>,
             [ReadByteCall 0x8000 0x80, ReadByteCall 0x8001 0x00])"
proof -
  have t: "SETMODE 0 (sprite_state\<lparr>m_ModeClock := 0\<rparr>)
      = (sprite_state\<lparr>m_LCDControllerStatus := 0x00\<rparr>)"
    by (simp add: SETMODE_def sprite_state_def zeroed_def)
  show ?thesis
    by (simp add: Step_def Step_switch_def Step_coincidence_def IsLCDDisplayEnabled_def
      ISBITSET_def GETMODE_def mode_defs dmg_simps sprite_state_fields t sprite_render
      HBlankInterrupt_def LYCoincidenceInterrupt_def SETBIT_def Let_def)
qed

text \<open>
  C1. The sprite renderer at \<open>sprite_state\<close>, where the one sprite on the screen has attribute
  bit 7 set (behind the background) and colour 1, mapped to \<^verbatim>\<open>GBColors[1]\<close>, in its leftmost pixel,
  which falls on column 0 of scanline 0.

  \<^item> \<^verbatim>\<open>Step\<close>, leaving mode 3, blanks the line: the framebuffer holds shade 0, \<^verbatim>\<open>GBColors[0]\<close>, the
    white \<open>EB\<close>, in column 0. The sprite renderer reads the sprite's two bytes and leaves
    column 0 as it is: the sprite's pixel is not written over shade 0.
  \<^item> On the same state with a framebuffer that holds shade 3, \<^verbatim>\<open>GBColors[3]\<close>, the black \<open>00\<close>,
    everywhere, the sprite renderer writes the sprite's pixel into column 0.

  The test of the source, \<^verbatim>\<open>m_DisplayPixels[index] == 0x00\<close>, under the comment
  \<^verbatim>\<open>If the BG pixel is white\<close>, compares the framebuffer's byte with the byte of shade 3, not
  of shade 0.
\<close>
theorem sprite_behind_background_test:
  "GBColors 0 = 0xEB \<and> GBColors 3 = 0x00 \<and> GBColors 1 = 0xC4
   \<and> ISBITSET (m_OAM sprite_state 3) 7
   \<and> Step dmg 172 sprite_state
       = Some (sprite_state\<lparr>m_LCDControllerStatus := 0x04,
                 m_DisplayPixels := (\<lambda>i. if i < 160 then GBColors 0 else 0)\<rparr>,
               [ReadByteCall 0x8000 0x80, ReadByteCall 0x8001 0x00])
   \<and> RenderOBJScanline dmg
         (sprite_state\<lparr>m_LCDControllerStatus := 0x00, m_DisplayPixels := (\<lambda>_. GBColors 3)\<rparr>, [])
       = Some (sprite_state\<lparr>m_LCDControllerStatus := 0x00,
                 m_DisplayPixels := (\<lambda>_. GBColors 3)(0 := GBColors 1)\<rparr>,
               [ReadByteCall 0x8000 0x80, ReadByteCall 0x8001 0x00])"
proof -
  let ?b = "sprite_state\<lparr>m_LCDControllerStatus := 0x00, m_DisplayPixels := (\<lambda>_. GBColors 3)\<rparr>"
  have c: "GBColors 0 = 0xEB" "GBColors 3 = 0x00" "GBColors 1 = 0xC4"
    by (simp_all add: GBColors_def)
  have flag: "ISBITSET (m_OAM sprite_state 3) 7"
    by (simp add: ISBITSET_def sprite_state_fields)
  have f: "m_LCDControl ?b = 0x82" "m_LCDControllerStatus ?b = 0x00"
    "m_LCDControllerYCoordinate ?b = 0" "m_ObjectPalette0Data ?b = 0xE4"
    "m_VRAM ?b = (\<lambda>_. 0)(0 := 0x80)" "m_OAM ?b = (\<lambda>_. 0)(0 := 16, Suc 0 := 8, 3 := 0x80)"
    by (simp_all add: sprite_state_fields)
  have black: "RenderOBJScanline dmg (?b, [])
      = Some (sprite_state\<lparr>m_LCDControllerStatus := 0x00,
                 m_DisplayPixels := (\<lambda>_. GBColors 3)(0 := GBColors 1)\<rparr>,
               [ReadByteCall 0x8000 0x80, ReadByteCall 0x8001 0x00])"
    unfolding sprite_scanline[OF f] by (simp add: c)
  from c flag sprite_step black show ?thesis by (intro conjI)
qed

text \<open>
  C9 at \<open>sprite_state\<close>: the call returns, its two reads are of video memory, and the first
  returned the \<open>80\<close> stored at \<open>8000\<close>, though the call began in mode 3.
\<close>
theorem Step_render_reads_unblocked_witness:
  "IsLCDDisplayEnabled sprite_state \<and> GETMODE sprite_state = ModeReadingOAMVRAM
   \<and> ReadingOAMVRAMCycles dmg \<le> m_ModeClock sprite_state + 172
   \<and> vram_blocked sprite_state
   \<and> Step dmg 172 sprite_state \<noteq> None
   \<and> ReadByteCall 0x8000 0x80 \<in> set (snd (the (Step dmg 172 sprite_state)))
   \<and> vram_address 0x8000
   \<and> m_VRAM sprite_state (unat (0x8000 :: ushort) - 0x8000) = 0x80"
proof -
  have en: "IsLCDDisplayEnabled sprite_state"
    by (simp add: IsLCDDisplayEnabled_def ISBITSET_def sprite_state_fields)
  have mode: "GETMODE sprite_state = ModeReadingOAMVRAM"
    by (simp add: GETMODE_def mode_defs sprite_state_fields)
  have reach: "ReadingOAMVRAMCycles dmg \<le> m_ModeClock sprite_state + 172"
    by (simp add: dmg_simps sprite_state_fields)
  have vis: "m_LCDControllerYCoordinate sprite_state < 144"
    by (simp add: sprite_state_fields)
  note th = Step_render_reads_unblocked[OF en mode reach]
  from th vis have ret: "Step dmg 172 sprite_state \<noteq> None" by simp
  from th have "\<forall>s' ev. Step dmg 172 sprite_state = Some (s', ev) \<longrightarrow>
      (\<exists>t s1 log rest.
          t = SETMODE ModeHBlank
                (sprite_state\<lparr>m_ModeClock :=
                   m_ModeClock sprite_state + 172 - ReadingOAMVRAMCycles dmg\<rparr>)
        \<and> GETMODE t = ModeHBlank
        \<and> \<not> (IsLCDDisplayEnabled t \<and> GETMODE t = ModeReadingOAMVRAM)
        \<and> RenderScanline dmg t = Some (s1, log)
        \<and> ev = log @ rest \<and> (\<forall>e \<in> set rest. \<not> is_read e))
      \<and> (\<forall>a v. ReadByteCall a v \<in> set ev \<longrightarrow>
            vram_address a \<and> v = m_VRAM sprite_state (unat a - 0x8000))"
    by (rule conjunct2)
  from this[rule_format, OF sprite_step]
  have "\<forall>a v. ReadByteCall a v \<in> set [ReadByteCall 0x8000 0x80, ReadByteCall 0x8001 0x00] \<longrightarrow>
            vram_address a \<and> v = m_VRAM sprite_state (unat a - 0x8000)"
    by (rule conjunct2)
  from this[rule_format, of "0x8000" "0x80"]
  have rd: "vram_address 0x8000 \<and> 0x80 = m_VRAM sprite_state (unat (0x8000 :: ushort) - 0x8000)"
    by simp
  have blocked: "vram_blocked sprite_state" using en mode by (simp add: vram_blocked_def)
  have mem: "ReadByteCall 0x8000 0x80 \<in> set (snd (the (Step dmg 172 sprite_state)))"
    by (simp add: sprite_step)
  from en mode reach blocked ret mem rd show ?thesis by simp
qed

end
